theory Spec2Isabelle
  imports Main
begin


section \<open>The persistent store (utils/database.js)\<close>

text \<open>
  The SQLite file is modelled as a value holding the tables the services below
  read and write. A table is the list of its rows in insertion order. Time stamps are
  milliseconds since the epoch (UTC); SQLite's \<open>date(t)\<close> is the day number.
  A statement that the driver rejects is part of the environment of each task: the
  queries (\<open>count_query_rejected\<close>, \<open>jobs_query_rejected\<close>, \<open>rows_query_rejected\<close>)
  and the writes (\<open>record_fault\<close>, \<open>log_fault\<close> and the like). The
  columns \<open>id\<close> (the surrogate key), \<open>duration_ms\<close>, \<open>started_at\<close> and \<open>completed_at\<close>
  are left out: nothing below reads them.
  Foreign keys are not enforced (the source never switches the pragma on).
\<close>

type_synonym timestamp = nat

definition date_of :: "timestamp \<Rightarrow> nat" where
  "date_of t = t div 86400000"

text \<open>The object a scraper hands to \<open>insertJob\<close> (the \<open>jobData\<close> of the source).\<close>

record job_data =
  jobId :: string
  title :: string
  company :: string
  location :: string
  jobType :: string
  description :: string
  requirements :: string
  postedDate :: string
  url :: string
  salaryRange :: string
  experienceLevel :: string
  matchScore :: int
  keywordsMatched :: "string list"

text \<open>
  A row of \<open>jobs\<close>: the thirteen inserted columns, and the two columns an insert leaves
  to their defaults (\<open>scraped_at = CURRENT_TIMESTAMP\<close>, \<open>is_applied = FALSE\<close>).
\<close>

record job_row =
  columns :: job_data
  scraped_at :: timestamp
  is_applied :: bool

text \<open>
  The \<open>status_history\<close> column: \<open>NULL\<close>, the JSON text of a list of entries (as
  \<open>JSON.stringify\<close> wrote it), or text that \<open>JSON.parse\<close> rejects.
\<close>

record history_entry =
  h_status :: string
  h_timestamp :: timestamp
  h_previousStatus :: string

datatype history_column = HistoryNull | HistoryJson "history_entry list" | HistoryUnparseable

record application_row =
  a_job_id :: string
  application_id :: string
  a_status :: string
  applied_at :: timestamp
  last_checked :: timestamp
  status_history :: history_column
  recruiter_contact :: "string option"
  a_notes :: "string option"

record log_row =
  log_type :: string
  log_status :: string
  items_processed :: nat
  errors_count :: nat
  error_message :: "string option"

text \<open>The object handed to \<open>insertCompany\<close>, and a row of \<open>companies\<close>.\<close>

record company_data =
  c_name :: string
  c_industry :: string
  c_size :: string
  c_location :: string
  c_website :: string
  c_description :: string
  c_employeesCount :: "int option"
  c_foundedYear :: "int option"
  c_specialties :: "string list"

record company_row =
  c_columns :: company_data
  c_scraped_at :: timestamp

record database =
  jobs :: "job_row list"
  applications :: "application_row list"
  companies :: "company_row list"
  scraping_logs :: "log_row list"

definition empty_database :: database where
  "empty_database = \<lparr>jobs = [], applications = [], companies = [], scraping_logs = []\<rparr>"

text \<open>
  \<open>Database.insertJob\<close>: \<open>INSERT OR REPLACE INTO jobs\<close>. The row that holds the same
  \<open>job_id\<close> (the column is \<open>UNIQUE\<close>) is deleted, and the new row is appended with the
  defaults of the columns the statement does not name.
\<close>

definition insertJob :: "database \<Rightarrow> timestamp \<Rightarrow> job_data \<Rightarrow> database" where
  "insertJob d now j =
     d\<lparr>jobs := filter (\<lambda>r. jobId (columns r) \<noteq> jobId j) (jobs d)
                  @ [\<lparr>columns = j, scraped_at = now, is_applied = False\<rparr>]\<rparr>"

text \<open>The object handed to \<open>insertApplication\<close> (\<open>applicationData\<close>).\<close>

record application_data =
  ad_jobId :: string
  ad_applicationId :: string
  ad_status :: string
  ad_appliedAt :: timestamp
  ad_recruiterContact :: "string option"
  ad_notes :: "string option"

text \<open>
  \<open>Database.insertApplication\<close>: \<open>INSERT OR REPLACE INTO applications\<close>. Only
  \<open>application_id\<close> is \<open>UNIQUE\<close> in this table, so a row is replaced when it holds the
  same \<open>application_id\<close>; \<open>job_id\<close> is not part of any uniqueness constraint.
\<close>

definition insertApplication :: "database \<Rightarrow> timestamp \<Rightarrow> application_data \<Rightarrow> database" where
  "insertApplication d now a =
     d\<lparr>applications :=
          filter (\<lambda>r. application_id r \<noteq> ad_applicationId a) (applications d)
          @ [\<lparr>a_job_id = ad_jobId a, application_id = ad_applicationId a,
               a_status = ad_status a, applied_at = ad_appliedAt a, last_checked = now,
               status_history = HistoryNull, recruiter_contact = ad_recruiterContact a,
               a_notes = ad_notes a\<rparr>]\<rparr>"

text \<open>\<open>UPDATE jobs SET is_applied = TRUE WHERE job_id = ?\<close>\<close>

definition markJobApplied :: "database \<Rightarrow> string \<Rightarrow> database" where
  "markJobApplied d jid =
     d\<lparr>jobs := map (\<lambda>r. if jobId (columns r) = jid then r\<lparr>is_applied := True\<rparr> else r) (jobs d)\<rparr>"

text \<open>\<open>Database.insertCompany\<close>: \<open>INSERT OR REPLACE INTO companies\<close>, unique by name.\<close>

definition insertCompany :: "database \<Rightarrow> timestamp \<Rightarrow> company_data \<Rightarrow> database" where
  "insertCompany d now c =
     d\<lparr>companies := filter (\<lambda>r. c_name (c_columns r) \<noteq> c_name c) (companies d)
                       @ [\<lparr>c_columns = c, c_scraped_at = now\<rparr>]\<rparr>"

text \<open>\<open>INSERT INTO scraping_logs (type, status, items_processed, errors_count, ...)\<close>\<close>

definition insertLog :: "database \<Rightarrow> log_row \<Rightarrow> database" where
  "insertLog d l = d\<lparr>scraping_logs := scraping_logs d @ [l]\<rparr>"

section \<open>Outcomes of asynchronous calls\<close>

text \<open>
  An awaited call returns a result, throws, or never settles because it awaits a line on
  standard input that the operator does not type.
\<close>

datatype error =
    CredentialsNotProvided
  | BrowserFailure
  | EmailVerificationRequired
  | CaptchaInHeadlessMode
  | PhoneVerificationRequired
  | PinVerificationRequired
  | LoginVerificationFailed
  | NotLoggedIn
  | PageIsNotAPage
  | StoreFailure

fun message_of :: "error \<Rightarrow> string" where
  "message_of CredentialsNotProvided = ''LinkedIn credentials not provided''"
| "message_of BrowserFailure = ''browser failure''"
| "message_of EmailVerificationRequired = ''Email verification required''"
| "message_of CaptchaInHeadlessMode = ''CAPTCHA detected in headless mode - cannot proceed''"
| "message_of PhoneVerificationRequired = ''Phone verification required''"
| "message_of PinVerificationRequired = ''PIN verification required''"
| "message_of LoginVerificationFailed = ''Login verification failed''"
| "message_of NotLoggedIn = ''Not logged in to LinkedIn''"
| "message_of PageIsNotAPage = ''page.waitForSelector is not a function''"
| "message_of StoreFailure = ''store failure''"

datatype 'a outcome = Returned 'a | Threw error | Blocked

fun and_then :: "'a outcome \<Rightarrow> ('a \<Rightarrow> 'b outcome) \<Rightarrow> 'b outcome" where
  "and_then (Returned x) f = f x"
| "and_then (Threw e) f = Threw e"
| "and_then Blocked f = Blocked"

section \<open>Login challenges (services/linkedinAuth.js, utils/browserManager.js)\<close>

text \<open>
  What the page shows after the credentials were submitted: one flag per selector that
  \<open>handleLoginChallenges\<close> and \<open>handleCaptcha\<close> query.
\<close>

record challenges =
  verificationText :: bool
  verificationPage :: bool
  emailChallenge :: bool
  captchaExists :: bool
  phoneChallenge :: bool
  pinChallenge :: bool

text \<open>
  The test \<open>!process.env.HEADLESS_MODE || process.env.HEADLESS_MODE === 'false'\<close>:
  the variable is unset, empty or the text \<open>false\<close>.
\<close>

definition interactive :: "string option \<Rightarrow> bool" where
  "interactive hm = (hm = None \<or> hm = Some [] \<or> hm = Some ''false'')"


text \<open>
  \<open>await new Promise(resolve => process.stdin.once('data', ...))\<close>: the promise settles
  when the operator sends a line. The argument counts the lines the operator will still
  send; with none left the promise never settles. There is no timer on it.
\<close>

definition await_operator :: "nat \<Rightarrow> nat outcome" where
  "await_operator lines = (if lines = 0 then Blocked else Returned (lines - 1))"

text \<open>One challenge block: when the selector matched, wait for the operator or throw.\<close>

definition challenge_step :: "string option \<Rightarrow> bool \<Rightarrow> error \<Rightarrow> nat \<Rightarrow> nat outcome" where
  "challenge_step hm detected err lines =
     (if detected then (if interactive hm then await_operator lines else Threw err)
      else Returned lines)"

definition handleCaptcha :: "string option \<Rightarrow> challenges \<Rightarrow> nat \<Rightarrow> nat outcome" where
  "handleCaptcha hm ch lines = challenge_step hm (captchaExists ch) CaptchaInHeadlessMode lines"

definition handleLoginChallenges :: "string option \<Rightarrow> challenges \<Rightarrow> nat \<Rightarrow> nat outcome" where
  "handleLoginChallenges hm ch lines =
     and_then (challenge_step hm (verificationText ch \<or> verificationPage ch)
                 EmailVerificationRequired lines) (\<lambda>l1.
     and_then (challenge_step hm (emailChallenge ch) EmailVerificationRequired l1) (\<lambda>l2.
     and_then (handleCaptcha hm ch l2) (\<lambda>l3.
     and_then (challenge_step hm (phoneChallenge ch) PhoneVerificationRequired l3) (\<lambda>l4.
     challenge_step hm (pinChallenge ch) PinVerificationRequired l4))))"


definition challenge_errors :: "error set" where
  "challenge_errors = {EmailVerificationRequired, CaptchaInHeadlessMode,
     PhoneVerificationRequired, PinVerificationRequired}"

section \<open>Login (LinkedInAuth.login)\<close>

text \<open>
  What the browser and the site answer during one call of \<open>login\<close>. Every field is
  the result of one step of the source, in its order.
\<close>

record login_env =
  credentials_provided :: bool
  launch_ok :: bool
  goto_login_failures :: nat
  already_logged_in :: bool
  submit_ok :: bool
  HEADLESS_MODE :: "string option"
  page_challenges :: challenges
  operator_lines :: nat
  goto_home_ok :: bool
  verified :: bool

text \<open>
  The navigation to the login page: \<open>retries = 3\<close>, a failure decrements it and throws
  when it reaches zero. The first argument is the number of attempts that will fail.
\<close>

fun goto_with_retry :: "nat \<Rightarrow> nat \<Rightarrow> bool" where
  "goto_with_retry fails 0 = True"
| "goto_with_retry fails (Suc retries) =
     (if fails = 0 then True
      else if retries = 0 then False
      else goto_with_retry (fails - 1) retries)"

text \<open>
  \<open>login\<close> returns (with \<open>isLoggedIn\<close> set) or throws; the second component is the
  field \<open>isLoggedIn\<close> afterwards, which a throw leaves as it was.
\<close>

definition login :: "login_env \<Rightarrow> bool \<Rightarrow> unit outcome \<times> bool" where
  "login e li =
     (if \<not> credentials_provided e then (Threw CredentialsNotProvided, li)
      else if \<not> launch_ok e then (Threw BrowserFailure, li)
      else if \<not> goto_with_retry (goto_login_failures e) 3 then (Threw BrowserFailure, li)
      else if already_logged_in e then (Returned (), True)
      else if \<not> submit_ok e then (Threw BrowserFailure, li)
      else (case handleLoginChallenges (HEADLESS_MODE e) (page_challenges e) (operator_lines e) of
              Threw err \<Rightarrow> (Threw err, li)
            | Blocked \<Rightarrow> (Blocked, li)
            | Returned _ \<Rightarrow>
                if \<not> goto_home_ok e then (Threw BrowserFailure, li)
                else if verified e then (Returned (), True)
                else (Threw LoginVerificationFailed, li)))"


section \<open>The session (LinkedInAuth.ensureLoggedIn)\<close>

text \<open>What a run does to the browser, in order: the part of the world outside the store.\<close>

datatype event =
    PageReadyProbe
  | LoginAttempt nat
  | Delay nat nat
  | Relaunch
  | Navigate string
  | ApplyTo string
  | CheckStatus string

record world =
  db :: database
  isLoggedIn :: bool
  trace :: "event list"

text \<open>
  What the browser answers during one call of \<open>ensureLoggedIn\<close>: the result of
  \<open>ensurePageReady\<close>, the result of the probe \<open>checkIfLoggedIn\<close> (made only when
  \<open>isLoggedIn\<close> is set), and the environment of each login attempt.
\<close>

record auth_env =
  page_ready :: bool
  session_probe :: bool
  login_envs :: "nat \<Rightarrow> login_env"

text \<open>
  The retry loop: \<open>attempts\<close> counts from 0, \<open>maxAttempts = 3\<close>. A login that throws is
  followed by a delay of 10 to 15 seconds and a relaunch of the browser when another
  attempt remains; every error is treated alike.
\<close>

definition after_attempt :: "nat \<Rightarrow> bool \<Rightarrow> world \<Rightarrow> world" where
  "after_attempt attempts li w =
     w\<lparr>isLoggedIn := li, trace := trace w @ [LoginAttempt attempts]\<rparr>"

definition before_retry :: "nat \<Rightarrow> event list \<Rightarrow> world \<Rightarrow> world" where
  "before_retry attempts evs w = (if attempts < 3 then w\<lparr>trace := trace w @ evs\<rparr> else w)"

function login_loop :: "(nat \<Rightarrow> login_env) \<Rightarrow> nat \<Rightarrow> world \<Rightarrow> bool outcome \<times> world" where
  "login_loop envs attempts w =
     (if attempts < 3 then
        (case login (envs attempts) (isLoggedIn w) of
           (Returned _, li) \<Rightarrow>
             if li then (Returned True, after_attempt attempts li w)
             else login_loop envs (attempts + 1)
                    (before_retry (attempts + 1) [Delay 5000 10000]
                       (after_attempt attempts li w))
         | (Threw e, li) \<Rightarrow>
             login_loop envs (attempts + 1)
               (before_retry (attempts + 1) [Delay 10000 15000, Relaunch]
                  (after_attempt attempts li w))
         | (Blocked, li) \<Rightarrow> (Blocked, after_attempt attempts li w))
      else (Returned False, w))"
  by pat_completeness auto
termination
  by (relation "measure (\<lambda>(envs, attempts, w). 3 - attempts)") auto

declare login_loop.simps [simp del]

definition ensureLoggedIn :: "auth_env \<Rightarrow> world \<Rightarrow> bool outcome \<times> world" where
  "ensureLoggedIn ae w =
     (let w1 = w\<lparr>trace := trace w @ [PageReadyProbe]\<rparr> in
      if \<not> page_ready ae then (Returned False, w1)
      else if isLoggedIn w1 \<and> session_probe ae then (Returned True, w1)
      else login_loop (login_envs ae) 0 w1)"

fun is_login_attempt :: "event \<Rightarrow> bool" where
  "is_login_attempt (LoginAttempt n) = True"
| "is_login_attempt ev = False"

fun is_delay :: "event \<Rightarrow> bool" where
  "is_delay (Delay lo hi) = True"
| "is_delay ev = False"

section \<open>Auto-apply (services/autoApplicant.js)\<close>

text \<open>
  The environment variables the constructor reads. The numeric ones are given as
  \<open>parseInt\<close> returned them (\<open>None\<close> for \<open>NaN\<close>).
\<close>

record process_env =
  AUTO_APPLY_ENABLED :: "string option"
  MAX_APPLICATIONS_PER_DAY :: "int option"
  APPLICATION_DELAY_MS :: "int option"

text \<open>\<open>parseInt(x) || d\<close>: \<open>NaN\<close> and \<open>0\<close> are falsy.\<close>

definition or_default :: "int option \<Rightarrow> int \<Rightarrow> int" where
  "or_default v d = (case v of None \<Rightarrow> d | Some n \<Rightarrow> if n = 0 then d else n)"

record auto_applicant =
  maxApplicationsPerDay :: int
  applicationDelay :: int
  autoApplyEnabled :: bool

definition new_AutoApplicant :: "process_env \<Rightarrow> auto_applicant" where
  "new_AutoApplicant pe =
     \<lparr>maxApplicationsPerDay = or_default (MAX_APPLICATIONS_PER_DAY pe) 20,
      applicationDelay = or_default (APPLICATION_DELAY_MS pe) 5000,
      autoApplyEnabled = (AUTO_APPLY_ENABLED pe = Some ''true'')\<rparr>"

text \<open>\<open>SELECT COUNT(*) FROM applications WHERE date(applied_at) = date('now')\<close>\<close>

definition today_count :: "database \<Rightarrow> timestamp \<Rightarrow> int" where
  "today_count d now =
     int (length (filter (\<lambda>a. date_of (applied_at a) = date_of now) (applications d)))"

text \<open>
  \<open>getTodayApplicationsCount\<close>: the count of the query; when the driver rejects the
  query the \<open>catch\<close> logs the error and returns 0.
\<close>

definition getTodayApplicationsCount :: "bool \<Rightarrow> database \<Rightarrow> timestamp \<Rightarrow> int" where
  "getTodayApplicationsCount rejected d now = (if rejected then 0 else today_count d now)"

subsection \<open>The candidate query (getJobsToApply)\<close>

definition lower_char :: "char \<Rightarrow> char" where
  "lower_char c =
     (let n = (of_char c :: nat) in if 65 \<le> n \<and> n \<le> 90 then char_of (n + 32) else c)"

text \<open>SQLite's \<open>LIKE\<close>: \<open>%\<close> matches any text, \<open>_\<close> one character, letters without case.\<close>

fun like :: "string \<Rightarrow> string \<Rightarrow> bool" where
  "like [] s = (s = [])"
| "like (p # ps) [] = (p = CHR ''%'' \<and> like ps [])"
| "like (p # ps) (c # cs) =
     (if p = CHR ''%'' then like ps (c # cs) \<or> like (p # ps) cs
      else (p = CHR ''_'' \<or> lower_char p = lower_char c) \<and> like ps cs)"

record apply_filters =
  minMatchScore :: "int option"
  keywordList :: "string list option"
  excludeCompanies :: "string list option"

text \<open>
  The conditions the filters add to the \<open>WHERE\<close> clause. A filter that is absent or
  falsy adds none. An empty list is truthy in JavaScript and adds \<open>AND ()\<close>, which
  SQLite rejects: the \<open>catch\<close> of \<open>getJobsToApply\<close> then returns no rows.
\<close>

definition filters_malformed :: "apply_filters \<Rightarrow> bool" where
  "filters_malformed f = (keywordList f = Some [] \<or> excludeCompanies f = Some [])"

definition filter_accepts :: "apply_filters \<Rightarrow> job_row \<Rightarrow> bool" where
  "filter_accepts f r =
     ((case minMatchScore f of
         None \<Rightarrow> True
       | Some m \<Rightarrow> m = 0 \<or> m \<le> matchScore (columns r))
      \<and> (case keywordList f of
         None \<Rightarrow> True
       | Some ks \<Rightarrow>
           list_ex (\<lambda>k. like (map lower_char (''%'' @ k @ ''%''))
                        (map lower_char (title (columns r) @ '' '' @ description (columns r)))) ks)
      \<and> (case excludeCompanies f of
         None \<Rightarrow> True
       | Some cs \<Rightarrow> list_all (\<lambda>c. company (columns r) \<noteq> c) cs))"

text \<open>\<open>LIMIT n\<close>: a negative \<open>n\<close> is no limit.\<close>

definition sql_limit :: "int \<Rightarrow> 'a list \<Rightarrow> 'a list" where
  "sql_limit n xs = (if n < 0 then xs else take (nat n) xs)"

text \<open>
  SQLite keeps \<open>CURRENT_TIMESTAMP\<close> and \<open>datetime(...)\<close> as texts with whole seconds
  and compares them as such.
\<close>

definition seconds_of :: "timestamp \<Rightarrow> nat" where
  "seconds_of t = t div 1000"

text \<open>
  \<open>WHERE is_applied = FALSE AND scraped_at >= datetime('now', '-3 days')\<close> and the
  filters, \<open>ORDER BY match_score DESC, scraped_at DESC LIMIT ?\<close>. When the driver
  rejects the query (the first argument), as it does for malformed filters, the
  \<open>catch\<close> returns no rows.
\<close>

definition getJobsToApply :: "bool \<Rightarrow> database \<Rightarrow> timestamp \<Rightarrow> apply_filters option \<Rightarrow> int \<Rightarrow> job_row list" where
  "getJobsToApply rejected d now filters limit =
     (if rejected \<or> (case filters of None \<Rightarrow> False | Some f \<Rightarrow> filters_malformed f) then []
      else sql_limit limit
             (sort_key (\<lambda>r. - matchScore (columns r))
               (sort_key (\<lambda>r. - int (seconds_of (scraped_at r)))
                 (filter (\<lambda>r. \<not> is_applied r
                               \<and> seconds_of now \<le> seconds_of (scraped_at r) + 259200
                               \<and> (case filters of None \<Rightarrow> True | Some f \<Rightarrow> filter_accepts f r))
                   (jobs d)))))"

subsection \<open>One application\<close>

text \<open>
  \<open>applyToJob\<close> drives the browser and catches everything: it returns
  \<open>{success: true, applicationId, method}\<close> or \<open>{success: false, reason}\<close>.
\<close>

datatype apply_result = ApplySuccess string string | ApplyRejected string

datatype store_fault = NoFault | InsertRejected | UpdateRejected

text \<open>
  The environment of an auto-apply run: the clock (\<open>Date.now()\<close> and SQLite's \<open>now\<close>,
  taken as one instant for the run), whether the driver rejects the count query and
  the candidate query, the result of \<open>applyToJob\<close> for each job, the writes of
  \<open>recordApplication\<close> that the store rejects, whether it rejects the log insert, and
  the session.
\<close>

record apply_env =
  clock :: timestamp
  count_query_rejected :: bool
  jobs_query_rejected :: bool
  applyToJob :: "job_row \<Rightarrow> apply_result"
  record_fault :: "job_row \<Rightarrow> store_fault"
  log_fault :: bool
  session :: auth_env

record apply_counts =
  appliedCount :: nat
  skippedCount :: nat
  errorsCount :: nat

definition no_counts :: apply_counts where
  "no_counts = \<lparr>appliedCount = 0, skippedCount = 0, errorsCount = 0\<rparr>"

text \<open>
  \<open>recordApplication\<close>: the insert, then the update of the job; either may be rejected,
  and the rejection is rethrown. \<open>Inl\<close> holds the store as the throw leaves it.
\<close>

definition recordApplication :: "apply_env \<Rightarrow> job_row \<Rightarrow> string \<Rightarrow> string \<Rightarrow> database \<Rightarrow> database + database" where
  "recordApplication env job appId method d =
     (case record_fault env job of
        InsertRejected \<Rightarrow> Inl d
      | UpdateRejected \<Rightarrow>
          Inl (insertApplication d (clock env)
                 \<lparr>ad_jobId = jobId (columns job), ad_applicationId = appId,
                  ad_status = ''Applied'', ad_appliedAt = clock env,
                  ad_recruiterContact = None,
                  ad_notes = Some (''Auto-applied via '' @ method)\<rparr>)
      | NoFault \<Rightarrow>
          Inr (markJobApplied
                 (insertApplication d (clock env)
                    \<lparr>ad_jobId = jobId (columns job), ad_applicationId = appId,
                     ad_status = ''Applied'', ad_appliedAt = clock env,
                     ad_recruiterContact = None,
                     ad_notes = Some (''Auto-applied via '' @ method)\<rparr>)
                 (jobId (columns job))))"

text \<open>The body of the \<open>for\<close> loop, up to the check of the daily limit.\<close>

definition apply_one :: "auto_applicant \<Rightarrow> apply_env \<Rightarrow> job_row \<Rightarrow> apply_counts \<times> world \<Rightarrow> apply_counts \<times> world" where
  "apply_one app env job cw =
     (let c = fst cw; w = snd cw;
          w1 = w\<lparr>trace := trace w @ [ApplyTo (jobId (columns job))]\<rparr>;
          pause = Delay (nat (applicationDelay app)) (nat (applicationDelay app + 2000))
      in case applyToJob env job of
           ApplyRejected reason \<Rightarrow>
             (c\<lparr>skippedCount := skippedCount c + 1\<rparr>, w1\<lparr>trace := trace w1 @ [pause]\<rparr>)
         | ApplySuccess appId method \<Rightarrow>
             (case recordApplication env job appId method (db w1) of
                Inl d \<Rightarrow> (c\<lparr>errorsCount := errorsCount c + 1\<rparr>, w1\<lparr>db := d\<rparr>)
              | Inr d \<Rightarrow>
                  (c\<lparr>appliedCount := appliedCount c + 1\<rparr>,
                   w1\<lparr>db := d, trace := trace w1 @ [pause]\<rparr>)))"

fun apply_loop :: "auto_applicant \<Rightarrow> apply_env \<Rightarrow> int \<Rightarrow> job_row list \<Rightarrow> apply_counts \<times> world \<Rightarrow> apply_counts \<times> world" where
  "apply_loop app env remaining [] cw = cw"
| "apply_loop app env remaining (job # rest) cw =
     (let cw1 = apply_one app env job cw
      in if remaining \<le> int (appliedCount (fst cw1)) then cw1
         else apply_loop app env remaining rest cw1)"

text \<open>\<open>logApplicationSession\<close>: a rejected insert is logged and swallowed.\<close>

definition logApplicationSession :: "bool \<Rightarrow> string \<Rightarrow> string \<Rightarrow> nat \<Rightarrow> nat \<Rightarrow> string option \<Rightarrow> database \<Rightarrow> database" where
  "logApplicationSession fault ty st items errs msg d =
     (if fault then d
      else insertLog d \<lparr>log_type = ty, log_status = st, items_processed = items,
                        errors_count = errs, error_message = msg\<rparr>)"

text \<open>
  \<open>autoApplyToJobs\<close>. The two early returns stand before any write. The value that
  \<open>ensureLoggedIn\<close> returns is not read. The outer \<open>catch\<close> logs the run as an error
  and rethrows; every callee between \<open>try\<close> and the final log catches its own errors.
\<close>

definition autoApplyToJobs :: "auto_applicant \<Rightarrow> apply_env \<Rightarrow> apply_filters option \<Rightarrow> world \<Rightarrow> apply_counts outcome \<times> world" where
  "autoApplyToJobs app env filters w =
     (if \<not> autoApplyEnabled app then (Returned no_counts, w)
      else
        let todayApplications =
              getTodayApplicationsCount (count_query_rejected env) (db w) (clock env) in
        if maxApplicationsPerDay app \<le> todayApplications then (Returned no_counts, w)
        else
          let remainingApplications = maxApplicationsPerDay app - todayApplications;
              lw = ensureLoggedIn (session env) w
          in case fst lw of
               Blocked \<Rightarrow> (Blocked, snd lw)
             | Threw e \<Rightarrow>
                 (Threw e,
                  (snd lw)\<lparr>db := logApplicationSession (log_fault env) ''auto_apply'' ''error''
                                  0 0 (Some (message_of e)) (db (snd lw))\<rparr>)
             | Returned _ \<Rightarrow>
                 let jobs_found = getJobsToApply (jobs_query_rejected env) (db (snd lw))
                                    (clock env) filters remainingApplications;
                     cw = apply_loop app env remainingApplications jobs_found (no_counts, snd lw);
                     c = fst cw; w2 = snd cw
                 in (Returned c,
                     w2\<lparr>db := logApplicationSession (log_fault env) ''auto_apply'' ''success''
                                 (appliedCount c) (errorsCount c) None (db w2)\<rparr>))"

text \<open>
  Between two stores, at most \<open>n\<close> rows were added to \<open>applications\<close>, and today's
  count grew by at most \<open>n\<close>.
\<close>

definition grown_by :: "database \<Rightarrow> database \<Rightarrow> timestamp \<Rightarrow> nat \<Rightarrow> bool" where
  "grown_by d d' t n =
     (length (applications d') \<le> length (applications d) + n
      \<and> today_count d' t \<le> today_count d t + int n)"

section \<open>Saving a scraped job (JobScraper.processAndSaveJob)\<close>

text \<open>
  \<open>SELECT id FROM jobs WHERE job_id = ?\<close>; when a row comes back the method logs
  "Job already exists" and returns, otherwise it calls \<open>insertJob\<close>.
\<close>

definition job_exists :: "database \<Rightarrow> string \<Rightarrow> bool" where
  "job_exists d jid = list_ex (\<lambda>r. jobId (columns r) = jid) (jobs d)"

definition processAndSaveJob :: "database \<Rightarrow> timestamp \<Rightarrow> job_data \<Rightarrow> database" where
  "processAndSaveJob d now j = (if job_exists d (jobId j) then d else insertJob d now j)"

text \<open>The rows of \<open>jobs\<close> that hold a given \<open>job_id\<close>.\<close>

definition jobs_with_id :: "database \<Rightarrow> string \<Rightarrow> job_row list" where
  "jobs_with_id d jid = filter (\<lambda>r. jobId (columns r) = jid) (jobs d)"

section \<open>Manual applications (ApplicationTracker.addManualApplication, routes/applications.js)\<close>

text \<open>JavaScript's \<open>a || b\<close> on texts: \<open>undefined\<close> and the empty text are falsy.\<close>

definition js_or :: "string option \<Rightarrow> string \<Rightarrow> string" where
  "js_or a b = (case a of None \<Rightarrow> b | Some s \<Rightarrow> if s = [] then b else s)"

definition js_or_opt :: "string option \<Rightarrow> string option \<Rightarrow> string option" where
  "js_or_opt a b = (case a of None \<Rightarrow> b | Some s \<Rightarrow> if s = [] then b else Some s)"

text \<open>A number as the template literal prints it (\<open>`manual_${Date.now()}`\<close>).\<close>

fun decimal :: "nat \<Rightarrow> string" where
  "decimal n =
     (if n < 10 then [''0123456789'' ! n]
      else decimal (n div 10) @ [''0123456789'' ! (n mod 10)])"

declare decimal.simps [simp del]

record manual_application =
  m_applicationId :: "string option"
  m_status :: "string option"
  m_appliedAt :: "timestamp option"
  m_recruiterContact :: "string option"
  m_notes :: "string option"

text \<open>
  \<open>addManualApplication(jobId, applicationData)\<close>: insert, mark the job, return the id.
  The method does not query \<open>applications\<close> before it inserts.
\<close>

definition addManualApplication :: "database \<Rightarrow> timestamp \<Rightarrow> string \<Rightarrow> manual_application \<Rightarrow> string \<times> database" where
  "addManualApplication d now jid a =
     (let applicationId = js_or (m_applicationId a) (''manual_'' @ decimal now)
      in (applicationId,
          markJobApplied
            (insertApplication d now
               \<lparr>ad_jobId = jid, ad_applicationId = applicationId,
                ad_status = js_or (m_status a) ''Applied'',
                ad_appliedAt = (case m_appliedAt a of None \<Rightarrow> now | Some t \<Rightarrow> t),
                ad_recruiterContact = m_recruiterContact a, ad_notes = m_notes a\<rparr>)
            jid))"

text \<open>
  The route \<open>POST /api/applications\<close> creates a manual application as well. It answers
  400 without a job id, 404 for an unknown job and 400 "Application already exists for
  this job" when \<open>SELECT * FROM applications WHERE job_id = ?\<close> returns a row. The
  module keeps a \<open>Database\<close> of its own, which only \<open>POST /track\<close> and \<open>GET /\<close>
  open: while it is closed (the first argument is \<open>False\<close>) the first query of the
  route is rejected and the \<open>catch\<close> answers 500.
\<close>

datatype http_response = HttpError nat string | HttpCreated string

definition applications_of_job :: "database \<Rightarrow> string \<Rightarrow> application_row list" where
  "applications_of_job d jid = filter (\<lambda>a. a_job_id a = jid) (applications d)"

definition post_application :: "bool \<Rightarrow> database \<Rightarrow> timestamp \<Rightarrow> string option \<Rightarrow> string option \<Rightarrow> string option \<Rightarrow> string option \<Rightarrow> http_response \<times> database" where
  "post_application opened d now jid st notes recruiterContact =
     (case jid of
        None \<Rightarrow> (HttpError 400 ''Job ID is required'', d)
      | Some j \<Rightarrow>
          if j = [] then (HttpError 400 ''Job ID is required'', d)
          else if \<not> opened then (HttpError 500 ''Internal server error'', d)
          else if \<not> job_exists d j then (HttpError 404 ''Job not found'', d)
          else if applications_of_job d j \<noteq> [] then
            (HttpError 400 ''Application already exists for this job'', d)
          else
            (HttpCreated (''manual_'' @ decimal now),
             markJobApplied
               (insertApplication d now
                  \<lparr>ad_jobId = j, ad_applicationId = ''manual_'' @ decimal now,
                   ad_status = (case st of None \<Rightarrow> ''Applied'' | Some s \<Rightarrow> s),
                   ad_appliedAt = now, ad_recruiterContact = recruiterContact,
                   ad_notes = notes\<rparr>)
               j))"

section \<open>Status updates (ApplicationTracker.updateApplicationStatus)\<close>

record status_update =
  su_status :: string
  su_lastChecked :: timestamp
  su_recruiterContact :: "string option"
  su_notes :: "string option"

text \<open>
  The history the method starts from: \<open>[]\<close> when the column is \<open>NULL\<close> (or empty) or
  when \<open>JSON.parse\<close> throws, the parsed list otherwise.
\<close>

fun parsed_history :: "history_column \<Rightarrow> history_entry list" where
  "parsed_history HistoryNull = []"
| "parsed_history (HistoryJson h) = h"
| "parsed_history HistoryUnparseable = []"

text \<open>
  The method receives the row object \<open>application\<close> as it was read and the detected
  \<open>statusUpdate\<close>; it pushes one entry and writes the row whose \<open>application_id\<close> matches.
\<close>

definition updateApplicationStatus :: "database \<Rightarrow> application_row \<Rightarrow> status_update \<Rightarrow> database" where
  "updateApplicationStatus d application upd =
     (let statusHistory = parsed_history (status_history application)
            @ [\<lparr>h_status = su_status upd, h_timestamp = su_lastChecked upd,
                 h_previousStatus = a_status application\<rparr>]
      in d\<lparr>applications :=
             map (\<lambda>r. if application_id r = application_id application
                       then r\<lparr>a_status := su_status upd,
                              last_checked := su_lastChecked upd,
                              status_history := HistoryJson statusHistory,
                              recruiter_contact :=
                                js_or_opt (su_recruiterContact upd) (recruiter_contact application),
                              a_notes := js_or_opt (su_notes upd) (a_notes application)\<rparr>
                       else r)
               (applications d)\<rparr>)"

text \<open>
  \<open>updateApplicationStatus\<close> does not read the store: its caller does, and may hold the
  row for any time before the call (\<open>trackApplications\<close> reads all rows once, at the
  start of a run). A sequence of calls is therefore a list of pairs, each the row that
  the caller holds and the update.
\<close>

fun updates_applied :: "database \<Rightarrow> (application_row \<times> status_update) list \<Rightarrow> database" where
  "updates_applied d [] = d"
| "updates_applied d (c # calls) = updates_applied (updateApplicationStatus d (fst c) (snd c)) calls"

definition find_application :: "database \<Rightarrow> string \<Rightarrow> application_row option" where
  "find_application d aid = find (\<lambda>r. application_id r = aid) (applications d)"

text \<open>
  In a sequence of calls for the application \<open>aid\<close>, every call is made with the row as
  the store holds it at that moment (the caller read it after the previous update).
\<close>

fun rows_current :: "string \<Rightarrow> database \<Rightarrow> (application_row \<times> status_update) list \<Rightarrow> bool" where
  "rows_current aid d [] = True"
| "rows_current aid d (c # calls) =
     (find_application d aid = Some (fst c)
      \<and> rows_current aid (updateApplicationStatus d (fst c) (snd c)) calls)"

text \<open>The history of an application in the store (empty when there is no such row).\<close>

definition history_of :: "database \<Rightarrow> string \<Rightarrow> history_entry list" where
  "history_of d aid =
     (case find_application d aid of None \<Rightarrow> [] | Some row \<Rightarrow> parsed_history (status_history row))"

text \<open>
  The entry that a call pushes: the new status, the time of the check, and as
  \<open>previousStatus\<close> the status of the row that the caller holds.
\<close>

definition pushed_entry :: "application_row \<times> status_update \<Rightarrow> history_entry" where
  "pushed_entry c =
     \<lparr>h_status = su_status (snd c), h_timestamp = su_lastChecked (snd c),
      h_previousStatus = a_status (fst c)\<rparr>"

section \<open>The attempts of a session\<close>

text \<open>
  The events of \<open>m\<close> login attempts in a row, the first with the number \<open>a\<close>: between
  two attempts stand the delay of 10 to 15 seconds and the relaunch of the browser, and
  nothing else.
\<close>

fun attempt_events :: "nat \<Rightarrow> nat \<Rightarrow> event list" where
  "attempt_events a 0 = []"
| "attempt_events a (Suc m) =
     LoginAttempt a
       # (if m = 0 then [] else [Delay 10000 15000, Relaunch] @ attempt_events (a + 1) m)"

text \<open>The login attempt with the given number throws (the flag \<open>isLoggedIn\<close> plays no part in that).\<close>

definition attempt_throws :: "(nat \<Rightarrow> login_env) \<Rightarrow> nat \<Rightarrow> bool" where
  "attempt_throws envs a = (case fst (login (envs a) False) of Threw e \<Rightarrow> True | _ \<Rightarrow> False)"

text \<open>
  \<open>ensureLoggedIn\<close> cannot take the cheap path: the page is ready, and the session is
  not both flagged as logged in and confirmed by the probe.
\<close>

definition session_unverified :: "auth_env \<Rightarrow> world \<Rightarrow> bool" where
  "session_unverified ae w = (page_ready ae \<and> \<not> (isLoggedIn w \<and> session_probe ae))"


section \<open>Job discovery (services/jobScraper.js)\<close>

text \<open>
  What one pass of the \<open>while\<close> loop of \<open>scrapeJobListings\<close> finds on the page. A card
  either throws when it is evaluated, or has the id the loop reads from it and the result
  of \<open>scrapeJobCard\<close> (\<open>None\<close> for \<open>null\<close>). \<open>page_error\<close> says that a page operation
  outside the per-card \<open>try\<close> throws in this pass.
\<close>

datatype card = CardThrows | Card string "job_data option"

datatype next_button = NoNextButton | NextEnabled | NextDisabled

record view =
  page_error :: bool
  cards :: "card list"
  next_button :: next_button

record batch =
  b_jobs :: "job_data list"
  b_processedJobIds :: "string list"
  b_new :: nat

text \<open>
  The body of the \<open>for\<close> loop over the cards: a card that throws, a card whose id was
  seen, and a card without usable data (\<open>null\<close>, or an empty title or company) leave
  the batch as it is; any other card is pushed and its id remembered.
\<close>

fun scrape_card :: "card \<Rightarrow> batch \<Rightarrow> batch" where
  "scrape_card CardThrows b = b"
| "scrape_card (Card cardId data) b =
     (if cardId \<in> set (b_processedJobIds b) then b
      else (case data of
              None \<Rightarrow> b
            | Some jobData \<Rightarrow>
                if title jobData \<noteq> [] \<and> company jobData \<noteq> [] then
                  \<lparr>b_jobs = b_jobs b @ [jobData],
                   b_processedJobIds = cardId # b_processedJobIds b,
                   b_new = b_new b + 1\<rparr>
                else b))"

text \<open>
  The \<open>for\<close> loop. Its bound \<open>Math.min(jobCards.length, maxJobs - jobs.length)\<close> is
  read again before every pass, with the current \<open>jobs.length\<close>.
\<close>

function process_cards :: "int \<Rightarrow> card list \<Rightarrow> nat \<Rightarrow> batch \<Rightarrow> batch" where
  "process_cards maxJobs cs i b =
     (if int i < min (int (length cs)) (maxJobs - int (length (b_jobs b)))
      then process_cards maxJobs cs (i + 1) (scrape_card (cs ! i) b)
      else b)"
  by pat_completeness auto
termination
  by (relation "measure (\<lambda>(maxJobs, cs, i, b). length cs - i)") auto

declare process_cards.simps [simp del]

lemma scrape_card_length:
  "length (b_jobs (scrape_card c b)) + b_new b = length (b_jobs b) + b_new (scrape_card c b)"
  by (cases c) (auto split: option.splits)

lemma process_cards_stop:
  "\<not> int i < min (int (length cs)) (maxJobs - int (length (b_jobs b))) \<Longrightarrow>
   process_cards maxJobs cs i b = b"
  by (subst process_cards.simps) (rule if_not_P)

lemma process_cards_step:
  "int i < min (int (length cs)) (maxJobs - int (length (b_jobs b))) \<Longrightarrow>
   process_cards maxJobs cs i b = process_cards maxJobs cs (i + 1) (scrape_card (cs ! i) b)"
  by (subst process_cards.simps) (rule if_P)

lemma process_cards_length:
  "length (b_jobs (process_cards maxJobs cs i b)) + b_new b
     = length (b_jobs b) + b_new (process_cards maxJobs cs i b)"
proof (induction maxJobs cs i b rule: process_cards.induct)
  case (1 maxJobs cs i b)
  show ?case
  proof (cases "int i < min (int (length cs)) (maxJobs - int (length (b_jobs b)))")
    case False
    show ?thesis by (simp only: process_cards_stop [OF False])
  next
    case True
    show ?thesis
      using "1.IH" [OF True] scrape_card_length [of "cs ! i" b]
      by (simp only: process_cards_step [OF True]; arith)
  qed
qed

text \<open>
  The state of the \<open>while\<close> loop: the number of passes made, the jobs collected, the card
  ids seen and \<open>consecutiveNoNewJobs\<close>.
\<close>

record listing_state =
  passes :: nat
  found :: "job_data list"
  processedJobIds :: "string list"
  consecutiveNoNewJobs :: nat

definition after_batch :: "listing_state \<Rightarrow> batch \<Rightarrow> listing_state" where
  "after_batch s b =
     \<lparr>passes = passes s + 1, found = b_jobs b, processedJobIds = b_processedJobIds b,
      consecutiveNoNewJobs = (if b_new b = 0 then consecutiveNoNewJobs s + 1 else 0)\<rparr>"

definition run_batch :: "int \<Rightarrow> view \<Rightarrow> listing_state \<Rightarrow> batch" where
  "run_batch maxJobs v s =
     process_cards maxJobs (cards v) 0
       \<lparr>b_jobs = found s, b_processedJobIds = processedJobIds s, b_new = 0\<rparr>"

definition loop_measure :: "int \<Rightarrow> listing_state \<Rightarrow> nat" where
  "loop_measure maxJobs s =
     3 * nat (maxJobs - int (length (found s))) + (3 - consecutiveNoNewJobs s)"

lemma loop_measure_after_batch:
  assumes "int (length (found s)) < maxJobs" and "consecutiveNoNewJobs s < 3"
  shows "loop_measure maxJobs (after_batch s (run_batch maxJobs v s)) < loop_measure maxJobs s"
proof -
  let ?b = "run_batch maxJobs v s"
  have len: "length (b_jobs ?b) = length (found s) + b_new ?b"
    using process_cards_length [of maxJobs "cards v" 0
        "\<lparr>b_jobs = found s, b_processedJobIds = processedJobIds s, b_new = 0\<rparr>"]
    by (simp add: run_batch_def)
  show ?thesis
  proof (cases "b_new ?b = 0")
    case True
    then show ?thesis using assms len by (simp add: loop_measure_def after_batch_def)
  next
    case False
    then have "nat (maxJobs - int (length (b_jobs ?b))) < nat (maxJobs - int (length (found s)))"
      using assms len by simp
    then show ?thesis using assms False by (simp add: loop_measure_def after_batch_def)
  qed
qed

text \<open>
  The \<open>while\<close> loop. Without cards the page is reloaded and the pass counts as empty.
  After a batch, while the target is not reached, a disabled next button ends the loop
  ("reached end of results"); the last test repeats the loop condition.
\<close>

function scrape_loop :: "(nat \<Rightarrow> view) \<Rightarrow> int \<Rightarrow> listing_state \<Rightarrow> listing_state outcome" where
  "scrape_loop pg maxJobs s =
     (if int (length (found s)) < maxJobs \<and> consecutiveNoNewJobs s < 3 then
        if page_error (pg (passes s)) then Threw BrowserFailure
        else if cards (pg (passes s)) = [] then
          scrape_loop pg maxJobs
            (s\<lparr>passes := passes s + 1, consecutiveNoNewJobs := consecutiveNoNewJobs s + 1\<rparr>)
        else if int (length (found (after_batch s (run_batch maxJobs (pg (passes s)) s)))) < maxJobs
                \<and> next_button (pg (passes s)) = NextDisabled then
          Returned (after_batch s (run_batch maxJobs (pg (passes s)) s))
        else if 3 \<le> consecutiveNoNewJobs (after_batch s (run_batch maxJobs (pg (passes s)) s)) then
          Returned (after_batch s (run_batch maxJobs (pg (passes s)) s))
        else scrape_loop pg maxJobs (after_batch s (run_batch maxJobs (pg (passes s)) s))
      else Returned s)"
  by pat_completeness auto
termination
proof (relation "measure (\<lambda>(pg, maxJobs, s). loop_measure maxJobs s)")
  show "wf (measure (\<lambda>(pg, maxJobs, s). loop_measure maxJobs s))" by simp
next
  fix pg :: "nat \<Rightarrow> view" and maxJobs :: int and s :: listing_state
  assume "int (length (found s)) < maxJobs \<and> consecutiveNoNewJobs s < 3"
  then show "((pg, maxJobs, s\<lparr>passes := passes s + 1,
                 consecutiveNoNewJobs := consecutiveNoNewJobs s + 1\<rparr>), pg, maxJobs, s)
      \<in> measure (\<lambda>(pg, maxJobs, s). loop_measure maxJobs s)"
    by (simp add: loop_measure_def; arith)
next
  fix pg :: "nat \<Rightarrow> view" and maxJobs :: int and s :: listing_state
  assume "int (length (found s)) < maxJobs \<and> consecutiveNoNewJobs s < 3"
  then show "((pg, maxJobs, after_batch s (run_batch maxJobs (pg (passes s)) s)), pg, maxJobs, s)
      \<in> measure (\<lambda>(pg, maxJobs, s). loop_measure maxJobs s)"
    using loop_measure_after_batch [of s maxJobs "pg (passes s)"] by simp
qed

declare scrape_loop.simps [simp del]

text \<open>
  The value bound to the first parameter of \<open>scrapeJobListings(page, maxJobs = 100)\<close>:
  a page of the browser (given by what each pass of the loop finds on it), a number or
  \<open>undefined\<close>.
\<close>

datatype page_arg = Page "nat \<Rightarrow> view" | Number int | Undefined

definition start_state :: listing_state where
  "start_state = \<lparr>passes = 0, found = [], processedJobIds = [], consecutiveNoNewJobs = 0\<rparr>"

text \<open>
  \<open>scrapeJobListings\<close>. The first statement of the loop body is
  \<open>page.waitForSelector(...)\<close>: when \<open>page\<close> is not a page this is a \<open>TypeError\<close>,
  caught and rethrown by the method. With a target of zero or less the body is not
  entered and the method returns the empty list.
\<close>

definition scrapeJobListings :: "page_arg \<Rightarrow> int option \<Rightarrow> job_data list outcome" where
  "scrapeJobListings page maxJobsArg =
     (let maxJobs = (case maxJobsArg of None \<Rightarrow> 100 | Some m \<Rightarrow> m)
      in case page of
           Page pg \<Rightarrow> and_then (scrape_loop pg maxJobs start_state) (\<lambda>s. Returned (found s))
         | Number n \<Rightarrow> if 0 < maxJobs then Threw PageIsNotAPage else Returned []
         | Undefined \<Rightarrow> if 0 < maxJobs then Threw PageIsNotAPage else Returned [])"

text \<open>
  The filters of a scrape: only \<open>maxJobs\<close> reaches the loop (the other fields drive
  the search form). Custom filters may leave it \<open>undefined\<close>.
\<close>

record job_filters =
  maxJobs :: "int option"

record job_scraper =
  searchFilters :: job_filters

definition new_JobScraper :: "int option \<Rightarrow> job_scraper" where
  "new_JobScraper MAX_JOBS_PER_SCRAPE =
     \<lparr>searchFilters = \<lparr>maxJobs = Some (or_default MAX_JOBS_PER_SCRAPE 50)\<rparr>\<rparr>"

text \<open>
  The environment of a scrape: the clock, the session, whether \<open>navigateToJobs\<close> and
  \<open>applySearchFilters\<close> get through, what the result page shows, which saves the store
  rejects and whether it rejects the log insert. \<open>scrapeJobs\<close> never reads \<open>listing\<close>:
  its call of \<open>scrapeJobListings\<close> does not pass the page.
\<close>

record scrape_env =
  s_clock :: timestamp
  s_session :: auth_env
  navigate_ok :: bool
  filters_ok :: bool
  listing :: "nat \<Rightarrow> view"
  save_rejected :: "job_data \<Rightarrow> bool"
  s_log_fault :: bool

definition logScrapingSession :: "bool \<Rightarrow> string \<Rightarrow> string \<Rightarrow> nat \<Rightarrow> nat \<Rightarrow> string option \<Rightarrow> database \<Rightarrow> database" where
  "logScrapingSession fault ty st items errs msg d =
     (if fault then d
      else insertLog d \<lparr>log_type = ty, log_status = st, items_processed = items,
                        errors_count = errs, error_message = msg\<rparr>)"

text \<open>The loop over the scraped jobs: a rejected save counts as an error and is skipped.\<close>

fun save_jobs :: "scrape_env \<Rightarrow> job_data list \<Rightarrow> database \<times> nat \<Rightarrow> database \<times> nat" where
  "save_jobs env [] de = de"
| "save_jobs env (j # js) de =
     save_jobs env js
       (if save_rejected env j then (fst de, snd de + 1)
        else (processAndSaveJob (fst de) (s_clock env) j, snd de))"

text \<open>The \<open>catch\<close> of \<open>scrapeJobs\<close>: log the run as an error and rethrow.\<close>

definition scrape_failed :: "scrape_env \<Rightarrow> error \<Rightarrow> world \<Rightarrow> job_data list outcome \<times> world" where
  "scrape_failed env e w =
     (Threw e,
      w\<lparr>db := logScrapingSession (s_log_fault env) ''job_scrape'' ''error'' 0 0
                 (Some (message_of e)) (db w)\<rparr>)"

text \<open>
  \<open>scrapeJobs\<close>. The result of \<open>ensureLoggedIn\<close> is not read; \<open>navigateToJobs\<close> throws
  when \<open>isLoggedIn\<close> is not set. The call \<open>this.scrapeJobListings(filters.maxJobs)\<close> binds
  the number to the parameter \<open>page\<close> and leaves \<open>maxJobs\<close> to its default.
\<close>

definition scrapeJobs :: "job_scraper \<Rightarrow> scrape_env \<Rightarrow> job_filters option \<Rightarrow> world \<Rightarrow> job_data list outcome \<times> world" where
  "scrapeJobs js env customFilters w =
     (let lw = ensureLoggedIn (s_session env) w; w1 = snd lw
      in case fst lw of
           Blocked \<Rightarrow> (Blocked, w1)
         | Threw e \<Rightarrow> scrape_failed env e w1
         | Returned _ \<Rightarrow>
             if \<not> isLoggedIn w1 then scrape_failed env NotLoggedIn w1
             else if \<not> navigate_ok env then scrape_failed env BrowserFailure w1
             else
               let filters = (case customFilters of None \<Rightarrow> searchFilters js | Some f \<Rightarrow> f);
                   w2 = w1\<lparr>trace := trace w1 @ [Navigate ''https://www.linkedin.com/jobs/'']\<rparr>
               in if \<not> filters_ok env then scrape_failed env BrowserFailure w2
                  else
                    (case scrapeJobListings
                            (case maxJobs filters of None \<Rightarrow> Undefined | Some n \<Rightarrow> Number n) None of
                       Blocked \<Rightarrow> (Blocked, w2)
                     | Threw e \<Rightarrow> scrape_failed env e w2
                     | Returned scrapedJobs \<Rightarrow>
                         let de = save_jobs env scrapedJobs (db w2, 0)
                         in (Returned scrapedJobs,
                             w2\<lparr>db := logScrapingSession (s_log_fault env) ''job_scrape''
                                        ''success'' (length scrapedJobs) (snd de) None (fst de)\<rparr>)))"

section \<open>Application tracking (ApplicationTracker.trackApplications)\<close>

text \<open>
  What \<open>checkApplicationStatus\<close> meets for one application: no element on the page, an
  element with the status text read from it (\<open>None\<close> when the extraction failed) and
  the details, or an error thrown on the way.
\<close>

datatype observation =
    ElementMissing
  | StatusRead "string option" "string option" "string option"
  | CheckThrows

text \<open>
  The environment of a tracking run: the clock, the session, whether the applications
  page opens, whether the driver rejects the query for the rows, what is observed for
  each application, the updates the store rejects and whether it rejects the log insert.
\<close>

record track_env =
  t_clock :: timestamp
  t_session :: auth_env
  applications_page_ok :: bool
  rows_query_rejected :: bool
  observe :: "application_row \<Rightarrow> observation"
  update_rejected :: "application_row \<Rightarrow> bool"
  t_log_fault :: bool

text \<open>\<open>UPDATE applications SET last_checked = CURRENT_TIMESTAMP WHERE application_id = ?\<close>\<close>

definition touchLastChecked :: "database \<Rightarrow> timestamp \<Rightarrow> string \<Rightarrow> database" where
  "touchLastChecked d now aid =
     d\<lparr>applications :=
          map (\<lambda>r. if application_id r = aid then r\<lparr>last_checked := now\<rparr> else r) (applications d)\<rparr>"

definition checkApplicationStatus :: "track_env \<Rightarrow> application_row \<Rightarrow> database \<Rightarrow> status_update option outcome \<times> database" where
  "checkApplicationStatus env application d =
     (case observe env application of
        ElementMissing \<Rightarrow> (Returned None, d)
      | CheckThrows \<Rightarrow> (Threw BrowserFailure, d)
      | StatusRead currentStatus recruiterContact notes \<Rightarrow>
          if js_or currentStatus [] \<noteq> [] \<and> js_or currentStatus [] \<noteq> a_status application then
            (Returned (Some \<lparr>su_status = js_or currentStatus [], su_lastChecked = t_clock env,
                              su_recruiterContact = recruiterContact, su_notes = notes\<rparr>), d)
          else (Returned None, touchLastChecked d (t_clock env) (application_id application)))"

record track_counts =
  checkedCount :: nat
  updatedCount :: nat
  t_errorsCount :: nat

text \<open>The body of the loop over the applications, with its \<open>catch\<close>.\<close>

definition track_one :: "track_env \<Rightarrow> application_row \<Rightarrow> track_counts \<times> world \<Rightarrow> track_counts \<times> world" where
  "track_one env application cw =
     (let c = fst cw; w = snd cw;
          w1 = w\<lparr>trace := trace w @ [CheckStatus (application_id application)]\<rparr>;
          r = checkApplicationStatus env application (db w1)
      in case fst r of
           Threw e \<Rightarrow> (c\<lparr>t_errorsCount := t_errorsCount c + 1\<rparr>, w1\<lparr>db := snd r\<rparr>)
         | Blocked \<Rightarrow> (c\<lparr>t_errorsCount := t_errorsCount c + 1\<rparr>, w1\<lparr>db := snd r\<rparr>)
         | Returned None \<Rightarrow>
             (c\<lparr>checkedCount := checkedCount c + 1\<rparr>,
              w1\<lparr>db := snd r, trace := trace w1 @ [Delay 2000 4000]\<rparr>)
         | Returned (Some statusUpdate) \<Rightarrow>
             if update_rejected env application then
               (c\<lparr>t_errorsCount := t_errorsCount c + 1\<rparr>, w1\<lparr>db := snd r\<rparr>)
             else
               (c\<lparr>checkedCount := checkedCount c + 1, updatedCount := updatedCount c + 1\<rparr>,
                w1\<lparr>db := updateApplicationStatus (snd r) application statusUpdate,
                   trace := trace w1 @ [Delay 2000 4000]\<rparr>))"

definition logTrackingSession :: "bool \<Rightarrow> string \<Rightarrow> string \<Rightarrow> nat \<Rightarrow> nat \<Rightarrow> nat \<Rightarrow> string option \<Rightarrow> database \<Rightarrow> database" where
  "logTrackingSession fault ty st items errs updated msg d =
     (if fault then d
      else insertLog d \<lparr>log_type = ty, log_status = st, items_processed = items,
                        errors_count = errs, error_message = msg\<rparr>)"

text \<open>
  \<open>trackApplications\<close>. The result of \<open>ensureLoggedIn\<close> is not read, and
  \<open>navigateToApplicationsPage\<close> does not test \<open>isLoggedIn\<close>; it rethrows a failed
  navigation, which the outer \<open>catch\<close> logs, as it does a rejected query for the
  rows. The rows are read once
  (\<open>ORDER BY applied_at DESC\<close>) and each is handled as it was read.
\<close>

definition trackApplications :: "track_env \<Rightarrow> world \<Rightarrow> track_counts outcome \<times> world" where
  "trackApplications env w =
     (let lw = ensureLoggedIn (t_session env) w;
          w1 = (snd lw)\<lparr>trace := trace (snd lw)
                  @ [Navigate ''https://www.linkedin.com/my-items/saved-jobs/'']\<rparr>
      in case fst lw of
           Blocked \<Rightarrow> (Blocked, snd lw)
         | Threw e \<Rightarrow>
             (Threw e, (snd lw)\<lparr>db := logTrackingSession (t_log_fault env) ''application_check''
                           ''error'' 0 0 0 (Some (message_of e)) (db (snd lw))\<rparr>)
         | Returned _ \<Rightarrow>
             if \<not> applications_page_ok env then
               (Threw BrowserFailure,
                w1\<lparr>db := logTrackingSession (t_log_fault env) ''application_check'' ''error''
                           0 0 0 (Some (message_of BrowserFailure)) (db w1)\<rparr>)
             else if rows_query_rejected env then
               (Threw StoreFailure,
                w1\<lparr>db := logTrackingSession (t_log_fault env) ''application_check'' ''error''
                           0 0 0 (Some (message_of StoreFailure)) (db w1)\<rparr>)
             else
               let rows = sort_key (\<lambda>a. - int (applied_at a)) (applications (db w1));
                   cw = foldl (\<lambda>cw application. track_one env application cw)
                          (\<lparr>checkedCount = 0, updatedCount = 0, t_errorsCount = 0\<rparr>, w1) rows;
                   c = fst cw; w2 = snd cw
               in (Returned c,
                   w2\<lparr>db := logTrackingSession (t_log_fault env) ''application_check''
                              ''success'' (checkedCount c) (t_errorsCount c) (updatedCount c)
                              None (db w2)\<rparr>))"

section \<open>Company research (CompanyScraper.scrapeCompanies)\<close>

text \<open>
  For each company name \<open>scrapeCompanyData\<close> returns the data or \<open>null\<close> (it catches
  its own errors); the save may be rejected. \<open>discovered\<close> is what
  \<open>getCompaniesToScrape\<close> returns when no names are passed.
\<close>

record company_env =
  c_clock :: timestamp
  c_session :: auth_env
  discovered :: "string list"
  scrapeCompanyData :: "string \<Rightarrow> company_data option"
  company_save_rejected :: "company_data \<Rightarrow> bool"
  c_log_fault :: bool

record company_counts =
  scrapedCount :: nat
  c_errorsCount :: nat

definition company_one :: "company_env \<Rightarrow> string \<Rightarrow> company_counts \<times> world \<Rightarrow> company_counts \<times> world" where
  "company_one env companyName cw =
     (let c = fst cw; w = snd cw;
          w1 = w\<lparr>trace := trace w @ [Navigate companyName]\<rparr>
      in case scrapeCompanyData env companyName of
           None \<Rightarrow> (c, w1\<lparr>trace := trace w1 @ [Delay 3000 6000]\<rparr>)
         | Some companyData \<Rightarrow>
             if company_save_rejected env companyData then
               (c\<lparr>c_errorsCount := c_errorsCount c + 1\<rparr>, w1)
             else
               (c\<lparr>scrapedCount := scrapedCount c + 1\<rparr>,
                w1\<lparr>db := insertCompany (db w1) (c_clock env) companyData,
                   trace := trace w1 @ [Delay 3000 6000]\<rparr>))"

definition scrapeCompanies :: "company_env \<Rightarrow> string list option \<Rightarrow> world \<Rightarrow> company_counts outcome \<times> world" where
  "scrapeCompanies env companyNames w =
     (let lw = ensureLoggedIn (c_session env) w
      in case fst lw of
           Blocked \<Rightarrow> (Blocked, snd lw)
         | Threw e \<Rightarrow>
             (Threw e, (snd lw)\<lparr>db := logScrapingSession (c_log_fault env) ''company_scrape''
                           ''error'' 0 0 (Some (message_of e)) (db (snd lw))\<rparr>)
         | Returned _ \<Rightarrow>
             let names = (case companyNames of None \<Rightarrow> discovered env | Some ns \<Rightarrow> ns);
                 cw = foldl (\<lambda>cw companyName. company_one env companyName cw)
                        (\<lparr>scrapedCount = 0, c_errorsCount = 0\<rparr>, snd lw) names;
                 c = fst cw; w2 = snd cw
             in (Returned c,
                 w2\<lparr>db := logScrapingSession (c_log_fault env) ''company_scrape'' ''success''
                            (scrapedCount c) (c_errorsCount c) None (db w2)\<rparr>))"

section \<open>Run outcomes in the log\<close>

text \<open>
  An auto-apply run gets past its two early returns: the toggle is on and the count
  that \<open>getTodayApplicationsCount\<close> returns is below the cap.
\<close>

definition passes_gates :: "auto_applicant \<Rightarrow> apply_env \<Rightarrow> world \<Rightarrow> bool" where
  "passes_gates app env w =
     (autoApplyEnabled app
      \<and> getTodayApplicationsCount (count_query_rejected env) (db w) (clock env)
          < maxApplicationsPerDay app)"


text \<open>
  Between two stores, the run wrote exactly the given row to \<open>scraping_logs\<close> and
  touched no older row; it wrote no row when the insert itself was rejected (the
  \<open>catch\<close> of the logging methods swallows the rejection).
\<close>

definition run_logged :: "bool \<Rightarrow> log_row \<Rightarrow> database \<Rightarrow> database \<Rightarrow> bool" where
  "run_logged fault row d d' =
     (scraping_logs d' = scraping_logs d @ (if fault then [] else [row]))"

text \<open>
  A run that returned is logged as \<open>success\<close> with the two counts taken from its
  result; a run that threw as \<open>error\<close> with the message of the error and the counts 0
  and 0 (every throw of a run comes before its first item is counted); a run that is
  still blocked has written nothing.
\<close>

fun outcome_logged :: "bool \<Rightarrow> string \<Rightarrow> ('a \<Rightarrow> nat) \<Rightarrow> ('a \<Rightarrow> nat) \<Rightarrow> 'a outcome \<Rightarrow> database \<Rightarrow> database \<Rightarrow> bool" where
  "outcome_logged fault ty items errs (Returned x) d d' =
     run_logged fault \<lparr>log_type = ty, log_status = ''success'', items_processed = items x,
       errors_count = errs x, error_message = None\<rparr> d d'"
| "outcome_logged fault ty items errs (Threw e) d d' =
     run_logged fault \<lparr>log_type = ty, log_status = ''error'', items_processed = 0,
       errors_count = 0, error_message = Some (message_of e)\<rparr> d d'"
| "outcome_logged fault ty items errs Blocked d d' = (scraping_logs d' = scraping_logs d)"

section \<open>The scheduler (services/scheduler.js)\<close>

text \<open>
  The scheduler owns one cron timer per name in its map \<open>jobs\<close> and the flag
  \<open>isRunning\<close>; it has no other field. JavaScript runs one callback at a time, but an
  \<open>async\<close> function gives up control at each \<open>await\<close>: the callback of a timer and a
  manual trigger both run up to \<open>await this.jobScraper.scrapeJobs()\<close> (or the method of
  their kind) and are suspended until that call settles, while other callbacks run. The
  state between two callbacks is therefore the two fields and the calls that have
  started and not yet settled, kept here in \<open>in_flight\<close> (the scheduler itself keeps no
  such record). A timer calls its callback at every tick while it is started: the
  options the source passes to \<open>cron.schedule\<close> are \<open>scheduled: false\<close> and a name.
\<close>

datatype job_name = JobScraping | ApplicationTracking | CompanyScraping | AutoApplication | DailyTasks

datatype timer = Unregistered | Started | Stopped

record scheduler =
  timers :: "job_name \<Rightarrow> timer"
  isRunning :: bool
  in_flight :: "job_name list"

definition new_Scheduler :: scheduler where
  "new_Scheduler = \<lparr>timers = (\<lambda>_. Unregistered), isRunning = False, in_flight = []\<rparr>"

text \<open>\<open>start()\<close>: a warning when already running; otherwise every timer is created and started.\<close>

definition start :: "string option \<Rightarrow> scheduler \<Rightarrow> scheduler" where
  "start autoApplyVar s =
     (if isRunning s then s
      else s\<lparr>isRunning := True,
             timers := (\<lambda>n. if n = AutoApplication \<and> autoApplyVar \<noteq> Some ''true''
                              then timers s n else Started)\<rparr>)"

text \<open>\<open>stop()\<close>: every timer is stopped and the map cleared.\<close>

definition stop :: "scheduler \<Rightarrow> scheduler" where
  "stop s = (if \<not> isRunning s then s
             else s\<lparr>isRunning := False, timers := (\<lambda>_. Unregistered)\<rparr>)"

definition pauseJob :: "job_name \<Rightarrow> scheduler \<Rightarrow> scheduler" where
  "pauseJob n s = (if timers s n = Unregistered then s else s\<lparr>timers := (timers s)(n := Stopped)\<rparr>)"

definition resumeJob :: "job_name \<Rightarrow> scheduler \<Rightarrow> scheduler" where
  "resumeJob n s = (if timers s n = Unregistered then s else s\<lparr>timers := (timers s)(n := Started)\<rparr>)"

text \<open>The call of the service method begins: one more call is in flight.\<close>

definition begin_run :: "job_name \<Rightarrow> scheduler \<Rightarrow> scheduler" where
  "begin_run n s = s\<lparr>in_flight := n # in_flight s\<rparr>"

text \<open>
  The callback of a timer. None of the five callbacks tests whether an earlier call is
  still in flight; the auto-apply callback tests the hour (\<open>hour >= 9 && hour <= 17\<close>)
  and logs "skipped - outside business hours" otherwise.
\<close>

definition timer_callback :: "job_name \<Rightarrow> nat \<Rightarrow> scheduler \<Rightarrow> scheduler" where
  "timer_callback n hour s =
     (if n = AutoApplication \<and> \<not> (9 \<le> hour \<and> hour \<le> 17) then s else begin_run n s)"

text \<open>A tick of the cron schedule of a timer.\<close>

definition tick :: "job_name \<Rightarrow> nat \<Rightarrow> scheduler \<Rightarrow> scheduler" where
  "tick n hour s = (if timers s n = Started then timer_callback n hour s else s)"

text \<open>
  The manual triggers (\<open>triggerJobScraping\<close>, \<open>triggerApplicationTracking\<close>,
  \<open>triggerCompanyScraping\<close>, \<open>triggerAutoApplication\<close>): log, then await the service
  method. There is no trigger for the daily tasks.
\<close>

definition trigger :: "job_name \<Rightarrow> scheduler \<Rightarrow> scheduler" where
  "trigger n s = (if n = DailyTasks then s else begin_run n s)"

text \<open>A call in flight settles (it returned or threw).\<close>

definition settle :: "job_name \<Rightarrow> scheduler \<Rightarrow> scheduler" where
  "settle n s = s\<lparr>in_flight := remove1 n (in_flight s)\<rparr>"

datatype scheduler_event =
    Tick job_name nat
  | Trigger job_name
  | Settle job_name
  | Pause job_name
  | Resume job_name

fun step :: "scheduler \<Rightarrow> scheduler_event \<Rightarrow> scheduler" where
  "step s (Tick n hour) = tick n hour s"
| "step s (Trigger n) = trigger n s"
| "step s (Settle n) = settle n s"
| "step s (Pause n) = pauseJob n s"
| "step s (Resume n) = resumeJob n s"

definition run_events :: "scheduler \<Rightarrow> scheduler_event list \<Rightarrow> scheduler" where
  "run_events s evs = foldl step s evs"

text \<open>The number of calls of a kind that are in flight.\<close>

definition running :: "job_name \<Rightarrow> scheduler \<Rightarrow> nat" where
  "running n s = count_list (in_flight s) n"

text \<open>An event that starts a call of the kind in the given state.\<close>

fun fires :: "job_name \<Rightarrow> scheduler \<Rightarrow> scheduler_event \<Rightarrow> bool" where
  "fires k s (Tick n hour) =
     (n = k \<and> timers s n = Started \<and> (n = AutoApplication \<longrightarrow> 9 \<le> hour \<and> hour \<le> 17))"
| "fires k s (Trigger n) = (n = k \<and> n \<noteq> DailyTasks)"
| "fires k s ev = False"

text \<open>The number of events of a run that start a call of the kind.\<close>

fun fired :: "job_name \<Rightarrow> scheduler \<Rightarrow> scheduler_event list \<Rightarrow> nat" where
  "fired k s [] = 0"
| "fired k s (ev # evs) = (if fires k s ev then 1 else 0) + fired k (step s ev) evs"

section \<open>Sample inputs\<close>

definition sample_job :: "string \<Rightarrow> int \<Rightarrow> job_data" where
  "sample_job jid score =
     \<lparr>jobId = jid, title = ''Engineer'', company = ''Acme'', location = ''Remote'',
      jobType = ''Full-time'', description = ''Build things'', requirements = [],
      postedDate = ''today'', url = ''https://www.linkedin.com/jobs/view/'' @ jid,
      salaryRange = [], experienceLevel = [], matchScore = score,
      keywordsMatched = []\<rparr>"

definition quiet_login :: login_env where
  "quiet_login =
     \<lparr>credentials_provided = True, launch_ok = True, goto_login_failures = 0,
      already_logged_in = False, submit_ok = True, HEADLESS_MODE = Some ''true'',
      page_challenges = \<lparr>verificationText = False, verificationPage = False,
        emailChallenge = False, captchaExists = False, phoneChallenge = False,
        pinChallenge = False\<rparr>,
      operator_lines = 0, goto_home_ok = True, verified = True\<rparr>"

definition live_session :: auth_env where
  "live_session = \<lparr>page_ready = True, session_probe = True, login_envs = (\<lambda>_. quiet_login)\<rparr>"

definition cap_app :: auto_applicant where
  "cap_app = \<lparr>maxApplicationsPerDay = 2, applicationDelay = 5000, autoApplyEnabled = True\<rparr>"

definition cap_env :: apply_env where
  "cap_env = \<lparr>clock = 86400000, count_query_rejected = False,
     jobs_query_rejected = False, applyToJob = (\<lambda>r. ApplySuccess (''easy_apply_'' @ jobId (columns r)) ''easy_apply''),
     record_fault = (\<lambda>_. NoFault), log_fault = False, session = live_session\<rparr>"

definition cap_world :: world where
  "cap_world =
     \<lparr>db = \<lparr>jobs = [\<lparr>columns = sample_job ''101'' 40, scraped_at = 86400000, is_applied = False\<rparr>,
                     \<lparr>columns = sample_job ''102'' 85, scraped_at = 86400000, is_applied = False\<rparr>,
                     \<lparr>columns = sample_job ''103'' 60, scraped_at = 86400000, is_applied = False\<rparr>],
            applications = [\<lparr>a_job_id = ''100'', application_id = ''manual_1'', a_status = ''Applied'',
                             applied_at = 86400001, last_checked = 86400001,
                             status_history = HistoryNull, recruiter_contact = None,
                             a_notes = None\<rparr>],
            companies = [], scraping_logs = []\<rparr>,
      isLoggedIn = True, trace = []\<rparr>"



definition acme_store :: database where
  "acme_store =
     \<lparr>jobs = [\<lparr>columns = sample_job ''123'' 40, scraped_at = 1000, is_applied = True\<rparr>],
      applications = [\<lparr>a_job_id = ''123'', application_id = ''easy_apply_1000'',
                       a_status = ''Applied'', applied_at = 1000, last_checked = 1000,
                       status_history = HistoryNull, recruiter_contact = None,
                       a_notes = Some ''Auto-applied via easy_apply''\<rparr>],
      companies = [], scraping_logs = []\<rparr>"

definition no_details :: manual_application where
  "no_details = \<lparr>m_applicationId = None, m_status = None, m_appliedAt = None,
     m_recruiterContact = None, m_notes = None\<rparr>"

definition viewed :: status_update where
  "viewed = \<lparr>su_status = ''Application viewed'', su_lastChecked = 2000,
     su_recruiterContact = None, su_notes = None\<rparr>"

definition rejected :: status_update where
  "rejected = \<lparr>su_status = ''Rejected'', su_lastChecked = 3000,
     su_recruiterContact = Some ''R. Cruiter'', su_notes = None\<rparr>"

text \<open>
  The application of \<open>acme_store\<close> as a caller reads it before any update, and as it
  reads it after the update \<open>viewed\<close>.
\<close>

definition applied_row :: application_row where
  "applied_row = \<lparr>a_job_id = ''123'', application_id = ''easy_apply_1000'',
     a_status = ''Applied'', applied_at = 1000, last_checked = 1000,
     status_history = HistoryNull, recruiter_contact = None,
     a_notes = Some ''Auto-applied via easy_apply''\<rparr>"

definition viewed_row :: application_row where
  "viewed_row = \<lparr>a_job_id = ''123'', application_id = ''easy_apply_1000'',
     a_status = ''Application viewed'', applied_at = 1000, last_checked = 2000,
     status_history = HistoryJson [\<lparr>h_status = ''Application viewed'', h_timestamp = 2000,
       h_previousStatus = ''Applied''\<rparr>],
     recruiter_contact = None, a_notes = Some ''Auto-applied via easy_apply''\<rparr>"

text \<open>A headless run whose login page always answers with a CAPTCHA.\<close>

definition captcha_login :: login_env where
  "captcha_login = quiet_login\<lparr>page_challenges := (page_challenges quiet_login)\<lparr>captchaExists := True\<rparr>\<rparr>"

definition captcha_session :: auth_env where
  "captcha_session = \<lparr>page_ready = True, session_probe = False, login_envs = (\<lambda>_. captcha_login)\<rparr>"



definition fresh_world :: world where
  "fresh_world = \<lparr>db = acme_store, isLoggedIn = False, trace = []\<rparr>"

text \<open>
  A result page that always shows the same two cards: the first pass finds two jobs, the
  next three passes find nothing new.
\<close>

definition two_cards_page :: "nat \<Rightarrow> view" where
  "two_cards_page = (\<lambda>_. \<lparr>page_error = False,
     cards = [Card ''201'' (Some (sample_job ''201'' 70)), Card ''202'' (Some (sample_job ''202'' 55))],
     next_button = NoNextButton\<rparr>)"

definition discovery_env :: scrape_env where
  "discovery_env = \<lparr>s_clock = 86400000, s_session = live_session, navigate_ok = True,
     filters_ok = True, listing = two_cards_page, save_rejected = (\<lambda>_. False),
     s_log_fault = False\<rparr>"

text \<open>A result page whose first batch ends the results: the next button is disabled.\<close>

definition last_page :: "nat \<Rightarrow> view" where
  "last_page = (\<lambda>_. \<lparr>page_error = False,
     cards = [Card ''201'' (Some (sample_job ''201'' 70))], next_button = NextDisabled\<rparr>)"

definition logged_in_world :: world where
  "logged_in_world = \<lparr>db = acme_store, isLoggedIn = True, trace = []\<rparr>"

text \<open>A tracking run in headless mode whose login always meets a CAPTCHA.\<close>

definition captcha_tracking :: track_env where
  "captcha_tracking = \<lparr>t_clock = 86400000, t_session = captcha_session,
     applications_page_ok = True, rows_query_rejected = False,
     observe = (\<lambda>_. StatusRead (Some ''Application viewed'') None None),
     update_rejected = (\<lambda>_. False), t_log_fault = False\<rparr>"

section \<open>Properties\<close>




lemma applications_markJobApplied [simp]:
  "applications (markJobApplied d jid) = applications d"
  by (simp add: markJobApplied_def)

lemma today_count_markJobApplied [simp]:
  "today_count (markJobApplied d jid) t = today_count d t"
  by (simp add: today_count_def)

lemma grown_by_refl [simp]: "grown_by d d t n"
  by (simp add: grown_by_def)









lemma db_after_attempt [simp]: "db (after_attempt n li w) = db w"
  by (simp add: after_attempt_def)

lemma db_before_retry [simp]: "db (before_retry n evs w) = db w"
  by (simp add: before_retry_def)

lemma login_loop_db [simp]: "db (snd (login_loop envs attempts w)) = db w"
proof (induction envs attempts w rule: login_loop.induct)
  case (1 envs attempts w)
  show ?case
  proof (cases "attempts < 3")
    case False
    then show ?thesis by (simp add: login_loop.simps)
  next
    case True
    then show ?thesis
      using "1.IH"
      by (subst login_loop.simps) (auto split: outcome.splits prod.splits)
  qed
qed

lemma ensureLoggedIn_db [simp]: "db (snd (ensureLoggedIn ae w)) = db w"
  by (simp add: ensureLoggedIn_def Let_def)


lemma applications_logApplicationSession [simp]:
  "applications (logApplicationSession fault ty st items errs msg d) = applications d"
  by (simp add: logApplicationSession_def insertLog_def)

lemma today_count_logApplicationSession [simp]:
  "today_count (logApplicationSession fault ty st items errs msg d) t
     = today_count d t"
  by (simp add: today_count_def)

text \<open>
  Claim C10. With the toggle off (\<open>AUTO_APPLY_ENABLED\<close> is not the text \<open>true\<close>),
  \<open>autoApplyToJobs\<close> returns the all-zero counts and leaves the whole world as it was:
  the store (no application, no job update, no row in \<open>scraping_logs\<close>), the login
  flag and the trace of browser events (no session probe, no login attempt).
\<close>

theorem auto_apply_disabled_is_noop:
  "AUTO_APPLY_ENABLED pe \<noteq> Some ''true'' \<Longrightarrow>
   autoApplyToJobs (new_AutoApplicant pe) env filters w = (Returned no_counts, w)"
  by (simp add: autoApplyToJobs_def new_AutoApplicant_def)

theorem auto_apply_disabled_is_noop_witness:
  "autoApplyToJobs
     (new_AutoApplicant \<lparr>AUTO_APPLY_ENABLED = Some ''TRUE'', MAX_APPLICATIONS_PER_DAY = Some 2,
        APPLICATION_DELAY_MS = None\<rparr>) cap_env None cap_world
   = (Returned \<lparr>appliedCount = 0, skippedCount = 0, errorsCount = 0\<rparr>, cap_world)"
  using auto_apply_disabled_is_noop
    [of "\<lparr>AUTO_APPLY_ENABLED = Some ''TRUE'', MAX_APPLICATIONS_PER_DAY = Some 2,
        APPLICATION_DELAY_MS = None\<rparr>" cap_env None cap_world]
  by (simp add: no_counts_def)


lemma cap_run_result:
  "fst (autoApplyToJobs cap_app cap_env None cap_world)
     = Returned \<lparr>appliedCount = 1, skippedCount = 0, errorsCount = 0\<rparr>"
proof -
  have k: "getTodayApplicationsCount (count_query_rejected cap_env) (db cap_world) (clock cap_env) = 1"
    by (simp add: getTodayApplicationsCount_def today_count_def cap_world_def cap_env_def date_of_def)
  have lw: "ensureLoggedIn live_session cap_world = (Returned True, cap_world\<lparr>trace := [PageReadyProbe]\<rparr>)"
    by (simp add: ensureLoggedIn_def live_session_def cap_world_def Let_def)
  show ?thesis
    using k
    apply (simp add: autoApplyToJobs_def cap_app_def Let_def)
    apply (simp add: cap_env_def lw)
    apply (simp add: getJobsToApply_def sql_limit_def seconds_of_def cap_world_def sample_job_def
        apply_one_def recordApplication_def no_counts_def Let_def)
    done
qed



subsection \<open>Job upsert and manual applications\<close>


lemma jobs_with_id_insertJob:
  "jobs_with_id (insertJob d now j) (jobId j) = [\<lparr>columns = j, scraped_at = now, is_applied = False\<rparr>]"
  by (simp add: jobs_with_id_def insertJob_def filter_empty_conv)

lemma job_exists_insertJob: "job_exists (insertJob d now j) (jobId j)"
  by (simp add: job_exists_def insertJob_def list_ex_iff)

lemma job_exists_processAndSaveJob: "job_exists (processAndSaveJob d now j) (jobId j)"
  by (simp add: processAndSaveJob_def job_exists_insertJob)

text \<open>
  Claim C3, as amended. \<open>Database.insertJob\<close> is a last-write-wins upsert: after two
  inserts of one \<open>job_id\<close> the table holds exactly one row of that id, with the
  attributes of the second insert (and \<open>scraped_at\<close>, \<open>is_applied\<close> back at their
  defaults). The scrape path \<open>processAndSaveJob\<close> is first-write-wins: its second call
  for the same \<open>job_id\<close> changes nothing, so the row keeps the first scrape's attributes.
\<close>

theorem job_upsert_by_path:
  assumes "jobId j2 = jobId j1"
  shows "jobs_with_id (insertJob (insertJob d t1 j1) t2 j2) (jobId j1)
           = [\<lparr>columns = j2, scraped_at = t2, is_applied = False\<rparr>]
       \<and> processAndSaveJob (processAndSaveJob d t1 j1) t2 j2 = processAndSaveJob d t1 j1
       \<and> (\<not> job_exists d (jobId j1) \<longrightarrow>
            jobs_with_id (processAndSaveJob (processAndSaveJob d t1 j1) t2 j2) (jobId j1)
              = [\<lparr>columns = j1, scraped_at = t1, is_applied = False\<rparr>])"
proof -
  have a: "jobs_with_id (insertJob (insertJob d t1 j1) t2 j2) (jobId j1)
           = [\<lparr>columns = j2, scraped_at = t2, is_applied = False\<rparr>]"
    using jobs_with_id_insertJob [of "insertJob d t1 j1" t2 j2] assms by simp
  have b: "processAndSaveJob (processAndSaveJob d t1 j1) t2 j2 = processAndSaveJob d t1 j1"
    using job_exists_processAndSaveJob [of d t1 j1] assms
    by (simp add: processAndSaveJob_def [of "processAndSaveJob d t1 j1"])
  have c: "jobs_with_id (processAndSaveJob d t1 j1) (jobId j1)
              = [\<lparr>columns = j1, scraped_at = t1, is_applied = False\<rparr>]"
    if "\<not> job_exists d (jobId j1)"
    using that by (simp add: processAndSaveJob_def jobs_with_id_insertJob)
  from a b c show ?thesis by simp
qed

theorem job_upsert_by_path_witness:
  "jobs_with_id (insertJob (insertJob empty_database 1000 (sample_job ''123'' 40)) 2000
       (sample_job ''123'' 85)) ''123''
     = [\<lparr>columns = sample_job ''123'' 85, scraped_at = 2000, is_applied = False\<rparr>]
   \<and> jobs_with_id (processAndSaveJob (processAndSaveJob empty_database 1000 (sample_job ''123'' 40)) 2000
       (sample_job ''123'' 85)) ''123''
     = [\<lparr>columns = sample_job ''123'' 40, scraped_at = 1000, is_applied = False\<rparr>]"
proof -
  have same: "jobId (sample_job ''123'' 85) = jobId (sample_job ''123'' 40)"
    by (simp add: sample_job_def)
  have fresh: "\<not> job_exists empty_database (jobId (sample_job ''123'' 40))"
    by (simp add: job_exists_def empty_database_def)
  have key: "jobId (sample_job ''123'' 40) = ''123''"
    by (simp add: sample_job_def)
  note both = job_upsert_by_path [OF same, of empty_database 1000 2000, unfolded key]
  from both fresh [unfolded key] show ?thesis by blast
qed

text \<open>
  Claim C3 as stated fails on the scrape path: job \<open>123\<close> scraped with \<open>matchScore\<close> 40
  and scraped again with 85 leaves one row whose \<open>matchScore\<close> is 40.
\<close>

theorem scrape_twice_keeps_first_score:
  "map (\<lambda>r. matchScore (columns r))
     (jobs (processAndSaveJob (processAndSaveJob empty_database 1000 (sample_job ''123'' 40)) 2000
        (sample_job ''123'' 85))) = [40]"
  by (simp add: processAndSaveJob_def job_exists_def insertJob_def empty_database_def sample_job_def)

text \<open>
  Claim C4 at a failing input. Job \<open>123\<close> has the application \<open>easy_apply_1000\<close>;
  \<open>addManualApplication\<close> for the same job returns a fresh id and the store then holds
  two applications of the job. The route \<open>POST /api/applications\<close>, its database
  handle open, answers the same request with 400 "Application already exists for this
  job" (and with 500 while the handle is closed).
\<close>

theorem manual_application_duplicates:
  "map application_id (applications_of_job (snd (addManualApplication acme_store 5000 ''123'' no_details)) ''123'')
     = [''easy_apply_1000'', ''manual_5000'']
   \<and> fst (addManualApplication acme_store 5000 ''123'' no_details) = ''manual_5000''
   \<and> fst (post_application True acme_store 5000 (Some ''123'') None None None)
       = HttpError 400 ''Application already exists for this job''
   \<and> post_application False acme_store 5000 (Some ''123'') None None None
       = (HttpError 500 ''Internal server error'', acme_store)"
  by (simp add: addManualApplication_def acme_store_def no_details_def js_or_def
      insertApplication_def markJobApplied_def applications_of_job_def decimal.simps
      post_application_def job_exists_def sample_job_def Let_def)

lemma post_application_conflict:
  "job_exists d j \<Longrightarrow> j \<noteq> [] \<Longrightarrow> applications_of_job d j \<noteq> [] \<Longrightarrow>
   post_application True d now (Some j) st notes rc
     = (HttpError 400 ''Application already exists for this job'', d)"
  by (simp add: post_application_def)

subsection \<open>Status history\<close>

lemma find_application_key: "find_application d aid = Some row \<Longrightarrow> application_id row = aid"
  by (auto simp: find_application_def find_Some_iff)

lemma find_map_same_key:
  assumes "find (\<lambda>r. application_id r = k) xs = Some x"
    and "\<And>r. application_id (f r) = application_id r"
  shows "find (\<lambda>r. application_id r = k) (map (\<lambda>r. if application_id r = k then f r else r) xs)
           = Some (f x)"
  using assms by (induction xs) (auto split: if_splits)

text \<open>The row that one call leaves in the store, whatever row the caller held.\<close>

lemma find_application_written:
  assumes "find_application d (application_id row) = Some stored"
  shows "find_application (updateApplicationStatus d row upd) (application_id row)
    = Some (stored\<lparr>a_status := su_status upd, last_checked := su_lastChecked upd,
         status_history := HistoryJson (parsed_history (status_history row)
            @ [\<lparr>h_status = su_status upd, h_timestamp = su_lastChecked upd,
                 h_previousStatus = a_status row\<rparr>]),
         recruiter_contact := js_or_opt (su_recruiterContact upd) (recruiter_contact row),
         a_notes := js_or_opt (su_notes upd) (a_notes row)\<rparr>)"
  using find_map_same_key [where k = "application_id row" and xs = "applications d" and x = stored
      and f = "\<lambda>r. r\<lparr>a_status := su_status upd, last_checked := su_lastChecked upd,
         status_history := HistoryJson (parsed_history (status_history row)
            @ [\<lparr>h_status = su_status upd, h_timestamp = su_lastChecked upd,
                 h_previousStatus = a_status row\<rparr>]),
         recruiter_contact := js_or_opt (su_recruiterContact upd) (recruiter_contact row),
         a_notes := js_or_opt (su_notes upd) (a_notes row)\<rparr>"]
    assms
  by (simp add: find_application_def updateApplicationStatus_def Let_def)

lemma history_after_one_call:
  assumes "find_application d (application_id row) = Some stored"
  shows "history_of (updateApplicationStatus d row upd) (application_id row)
    = parsed_history (status_history row) @ [pushed_entry (row, upd)]"
  using find_application_written [OF assms, of upd]
  by (simp add: history_of_def pushed_entry_def)

lemma status_after_one_call:
  assumes "find_application d (application_id row) = Some stored"
    and "find_application (updateApplicationStatus d row upd) (application_id row) = Some row'"
  shows "a_status row' = su_status upd"
  using find_application_written [OF assms(1), of upd] assms(2) by auto

lemma rows_current_history:
  "rows_current aid d calls \<Longrightarrow>
   history_of (updates_applied d calls) aid = history_of d aid @ map pushed_entry calls"
proof (induction calls arbitrary: d)
  case Nil
  show ?case by simp
next
  case (Cons c calls)
  from Cons.prems have found: "find_application d aid = Some (fst c)"
    and rest: "rows_current aid (updateApplicationStatus d (fst c) (snd c)) calls"
    by simp_all
  have key: "application_id (fst c) = aid" using found by (rule find_application_key)
  have one: "history_of (updateApplicationStatus d (fst c) (snd c)) aid
      = history_of d aid @ [pushed_entry c]"
    using history_after_one_call [of d "fst c" "fst c" "snd c"] found key
    by (simp add: history_of_def)
  from Cons.IH [OF rest] one show ?case by simp
qed

lemma rows_current_take: "rows_current aid d calls \<Longrightarrow> rows_current aid d (take n calls)"
proof (induction calls arbitrary: d n)
  case Nil
  show ?case by simp
next
  case (Cons c calls)
  then show ?case by (cases n) simp_all
qed

lemma rows_current_chain:
  "rows_current aid d calls \<Longrightarrow> Suc i < length calls \<Longrightarrow>
   a_status (fst (calls ! Suc i)) = su_status (snd (calls ! i))"
proof (induction calls arbitrary: d i)
  case Nil
  then show ?case by simp
next
  case (Cons c calls)
  from Cons.prems have found: "find_application d aid = Some (fst c)"
    and rest: "rows_current aid (updateApplicationStatus d (fst c) (snd c)) calls"
    by simp_all
  have key: "application_id (fst c) = aid" using found by (rule find_application_key)
  show ?case
  proof (cases i)
    case 0
    with Cons.prems obtain c2 calls' where calls: "calls = c2 # calls'"
      by (cases calls) auto
    with rest have "find_application (updateApplicationStatus d (fst c) (snd c)) aid = Some (fst c2)"
      by simp
    then have "a_status (fst c2) = su_status (snd c)"
      using status_after_one_call [of d "fst c" "fst c" "snd c" "fst c2"] found key by simp
    with 0 calls show ?thesis by simp
  next
    case (Suc j)
    with Cons.prems have "Suc j < length calls" by simp
    from Cons.IH [OF rest this] Suc show ?thesis by simp
  qed
qed

text \<open>
  Claim C9, as the code has it. \<open>updateApplicationStatus\<close> builds the new history from
  the row that its caller passes: after one call the stored history is the history held
  in that row followed by the pushed entry, whatever the store held. When every one of
  \<open>M\<close> calls for an application is made with the row as the store holds it at that
  moment, the history afterwards is the history before followed by the \<open>M\<close> pushed
  entries (so its length is \<open>M\<close> when it was empty), entry \<open>i > 0\<close> of them holds as
  \<open>previousStatus\<close> the status of entry \<open>i - 1\<close>, and the history after the first \<open>n\<close>
  calls is a prefix of the final one: no call modifies or removes an entry.
\<close>

theorem status_history_from_row_held:
  assumes stored: "find_application d (application_id row) = Some stored"
    and current: "rows_current aid d calls"
  shows "history_of (updateApplicationStatus d row upd) (application_id row)
       = parsed_history (status_history row) @ [pushed_entry (row, upd)]
     \<and> history_of (updates_applied d calls) aid = history_of d aid @ map pushed_entry calls
     \<and> length (history_of (updates_applied d calls) aid)
         = length (history_of d aid) + length calls
     \<and> (\<forall>i. 0 < i \<and> i < length calls \<longrightarrow>
           h_previousStatus (map pushed_entry calls ! i)
             = h_status (map pushed_entry calls ! (i - 1)))
     \<and> (\<forall>n. history_of (updates_applied d (take n calls)) aid
             = take (length (history_of d aid) + n) (history_of (updates_applied d calls) aid))"
proof -
  have whole: "history_of (updates_applied d calls) aid = history_of d aid @ map pushed_entry calls"
    using current by (rule rows_current_history)
  have chain: "h_previousStatus (map pushed_entry calls ! i)
             = h_status (map pushed_entry calls ! (i - 1))"
    if "0 < i" "i < length calls" for i
  proof -
    from that obtain j where i: "i = Suc j" by (cases i) auto
    with that rows_current_chain [OF current, of j] show ?thesis
      by (simp add: pushed_entry_def)
  qed
  have prefix: "history_of (updates_applied d (take n calls)) aid
             = take (length (history_of d aid) + n) (history_of (updates_applied d calls) aid)" for n
    using rows_current_history [OF rows_current_take [OF current, of n]]
    by (simp add: whole take_map)
  have len: "length (history_of (updates_applied d calls) aid)
         = length (history_of d aid) + length calls"
    by (simp add: whole)
  have chain_all: "\<forall>i. 0 < i \<and> i < length calls \<longrightarrow>
           h_previousStatus (map pushed_entry calls ! i)
             = h_status (map pushed_entry calls ! (i - 1))"
    using chain by blast
  have prefix_all: "\<forall>n. history_of (updates_applied d (take n calls)) aid
             = take (length (history_of d aid) + n) (history_of (updates_applied d calls) aid)"
    using prefix by blast
  from history_after_one_call [OF stored, of upd] whole len chain_all prefix_all
  show ?thesis by blast
qed

theorem status_history_from_row_held_witness:
  "find_application acme_store (application_id applied_row) = Some applied_row
   \<and> rows_current ''easy_apply_1000'' acme_store [(applied_row, viewed), (viewed_row, rejected)]
   \<and> history_of (updateApplicationStatus acme_store applied_row viewed) ''easy_apply_1000''
       = [\<lparr>h_status = ''Application viewed'', h_timestamp = 2000, h_previousStatus = ''Applied''\<rparr>]
   \<and> history_of (updates_applied acme_store [(applied_row, viewed), (viewed_row, rejected)])
         ''easy_apply_1000''
       = [\<lparr>h_status = ''Application viewed'', h_timestamp = 2000, h_previousStatus = ''Applied''\<rparr>,
          \<lparr>h_status = ''Rejected'', h_timestamp = 3000, h_previousStatus = ''Application viewed''\<rparr>]"
proof -
  have key: "application_id applied_row = ''easy_apply_1000''"
    by (simp add: applied_row_def)
  have stored: "find_application acme_store (application_id applied_row) = Some applied_row"
    by (simp add: find_application_def acme_store_def applied_row_def)
  have current: "rows_current ''easy_apply_1000'' acme_store [(applied_row, viewed), (viewed_row, rejected)]"
    by (simp add: find_application_def acme_store_def applied_row_def viewed_row_def
        updateApplicationStatus_def viewed_def rejected_def js_or_opt_def Let_def)
  have empty: "history_of acme_store ''easy_apply_1000'' = []"
    by (simp add: history_of_def find_application_def acme_store_def)
  have null: "parsed_history (status_history applied_row) = []"
    by (simp add: applied_row_def)
  have entries: "pushed_entry (applied_row, viewed)
        = \<lparr>h_status = ''Application viewed'', h_timestamp = 2000, h_previousStatus = ''Applied''\<rparr>"
      "pushed_entry (viewed_row, rejected)
        = \<lparr>h_status = ''Rejected'', h_timestamp = 3000, h_previousStatus = ''Application viewed''\<rparr>"
    by (simp_all add: pushed_entry_def applied_row_def viewed_row_def viewed_def rejected_def)
  note all = status_history_from_row_held [OF stored current, of viewed, unfolded key empty null]
  from all have one: "history_of (updateApplicationStatus acme_store applied_row viewed) ''easy_apply_1000''
       = [\<lparr>h_status = ''Application viewed'', h_timestamp = 2000, h_previousStatus = ''Applied''\<rparr>]"
    by (simp add: entries)
  from all have two: "history_of (updates_applied acme_store [(applied_row, viewed), (viewed_row, rejected)])
         ''easy_apply_1000''
       = [\<lparr>h_status = ''Application viewed'', h_timestamp = 2000, h_previousStatus = ''Applied''\<rparr>,
          \<lparr>h_status = ''Rejected'', h_timestamp = 3000, h_previousStatus = ''Application viewed''\<rparr>]"
    by (simp add: entries)
  from stored current one two show ?thesis by blast
qed

text \<open>
  Claim C9 as stated fails when the caller holds a row that it read before an earlier
  update: two updates in a row of the application \<open>easy_apply_1000\<close>, both made with the
  row as it was read before the first, leave a history of one entry. The entry of the
  first update is gone, and the entry that remains names \<open>Applied\<close> as the previous
  status although the status that it replaced was \<open>Application viewed\<close>.
\<close>

theorem stale_row_drops_history_entry:
  "find_application acme_store ''easy_apply_1000'' = Some applied_row
   \<and> history_of (updates_applied acme_store [(applied_row, viewed)]) ''easy_apply_1000''
       = [\<lparr>h_status = ''Application viewed'', h_timestamp = 2000, h_previousStatus = ''Applied''\<rparr>]
   \<and> history_of (updates_applied acme_store [(applied_row, viewed), (applied_row, rejected)])
         ''easy_apply_1000''
       = [\<lparr>h_status = ''Rejected'', h_timestamp = 3000, h_previousStatus = ''Applied''\<rparr>]"
  by (simp add: find_application_def acme_store_def applied_row_def history_of_def
      updateApplicationStatus_def viewed_def rejected_def Let_def)

subsection \<open>Login challenges\<close>







subsection \<open>The retry loop of the session\<close>

lemma login_loop_done: "\<not> attempts < 3 \<Longrightarrow> login_loop envs attempts w = (Returned False, w)"
  by (simp add: login_loop.simps)

lemma login_loop_success:
  "attempts < 3 \<Longrightarrow> login (envs attempts) (isLoggedIn w) = (Returned u, True) \<Longrightarrow>
   login_loop envs attempts w = (Returned True, after_attempt attempts True w)"
  by (subst login_loop.simps) simp

lemma login_loop_not_logged:
  "attempts < 3 \<Longrightarrow> login (envs attempts) (isLoggedIn w) = (Returned u, False) \<Longrightarrow>
   login_loop envs attempts w
     = login_loop envs (attempts + 1)
         (before_retry (attempts + 1) [Delay 5000 10000] (after_attempt attempts False w))"
  by (subst login_loop.simps) simp

lemma login_loop_threw:
  "attempts < 3 \<Longrightarrow> login (envs attempts) (isLoggedIn w) = (Threw e, li) \<Longrightarrow>
   login_loop envs attempts w
     = login_loop envs (attempts + 1)
         (before_retry (attempts + 1) [Delay 10000 15000, Relaunch] (after_attempt attempts li w))"
  by (subst login_loop.simps) simp

lemma login_loop_blocked:
  "attempts < 3 \<Longrightarrow> login (envs attempts) (isLoggedIn w) = (Blocked, li) \<Longrightarrow>
   login_loop envs attempts w = (Blocked, after_attempt attempts li w)"
  by (subst login_loop.simps) simp

lemma login_returns_logged_in: "login e li = (Returned u, li') \<Longrightarrow> li'"
  by (auto simp: login_def split: if_splits outcome.splits)

lemma fst_login_independent: "fst (login e li) = fst (login e li')"
  by (auto simp: login_def split: if_splits outcome.splits)


lemma attempt_throws_iff:
  "login (envs a) li = (x, li') \<Longrightarrow> attempt_throws envs a \<longleftrightarrow> (\<exists>e. x = Threw e)"
  using fst_login_independent [of "envs a" li False]
  by (auto simp: attempt_throws_def split: outcome.splits)

lemma login_loop_result:
  "fst (login_loop envs attempts w) \<noteq> Threw e
   \<and> (fst (login_loop envs attempts w) = Returned True \<longrightarrow> isLoggedIn (snd (login_loop envs attempts w)))"
proof (induction envs attempts w rule: login_loop.induct)
  case (1 envs attempts w)
  show ?case
  proof (cases "attempts < 3")
    case False
    then show ?thesis by (simp add: login_loop_done)
  next
    case True
    obtain x li where l: "login (envs attempts) (isLoggedIn w) = (x, li)"
      by (cases "login (envs attempts) (isLoggedIn w)")
    show ?thesis
    proof (cases x)
      case (Returned u)
      then have li: li using l login_returns_logged_in by blast
      have "login_loop envs attempts w = (Returned True, after_attempt attempts True w)"
        using True l Returned li by (intro login_loop_success) simp_all
      then show ?thesis by (simp add: after_attempt_def)
    next
      case (Threw err)
      have "login_loop envs attempts w = login_loop envs (attempts + 1)
          (before_retry (attempts + 1) [Delay 10000 15000, Relaunch] (after_attempt attempts li w))"
        using True l Threw by (intro login_loop_threw) simp_all
      then show ?thesis
        using "1.IH"(2) [OF True l [symmetric] Threw] by simp
    next
      case Blocked
      have "login_loop envs attempts w = (Blocked, after_attempt attempts li w)"
        using True l Blocked by (intro login_loop_blocked) simp_all
      then show ?thesis by simp
    qed
  qed
qed

text \<open>
  The attempts that the loop makes, from attempt \<open>a\<close> on: every attempt but the last
  threw and was followed by the delay and the relaunch; the loop stopped before the third
  attempt only when an attempt did not throw; and it returns \<open>false\<close> exactly when the
  third attempt was made and threw.
\<close>

lemma login_loop_attempts:
  assumes "a < 3"
  shows "\<exists>m. 0 < m \<and> a + m \<le> 3
     \<and> trace (snd (login_loop envs a w)) = trace w @ attempt_events a m
     \<and> (\<forall>i. Suc i < m \<longrightarrow> attempt_throws envs (a + i))
     \<and> (a + m < 3 \<longrightarrow> \<not> attempt_throws envs (a + m - 1))
     \<and> (fst (login_loop envs a w) = Returned False \<longleftrightarrow> a + m = 3 \<and> attempt_throws envs 2)"
  using assms
proof (induction envs a w rule: login_loop.induct)
  case (1 envs a w)
  note lt = \<open>a < 3\<close>
  obtain x li where l: "login (envs a) (isLoggedIn w) = (x, li)"
    by (cases "login (envs a) (isLoggedIn w)")
  note thr = attempt_throws_iff [of envs a, OF l]
  show ?case
  proof (cases x)
    case (Returned u)
    then have li: li using l login_returns_logged_in by blast
    have eq: "login_loop envs a w = (Returned True, after_attempt a True w)"
      using lt l Returned li by (intro login_loop_success) simp_all
    have "0 < Suc 0 \<and> a + Suc 0 \<le> 3
     \<and> trace (snd (login_loop envs a w)) = trace w @ attempt_events a (Suc 0)
     \<and> (\<forall>i. Suc i < Suc 0 \<longrightarrow> attempt_throws envs (a + i))
     \<and> (a + Suc 0 < 3 \<longrightarrow> \<not> attempt_throws envs (a + Suc 0 - 1))
     \<and> (fst (login_loop envs a w) = Returned False \<longleftrightarrow> a + Suc 0 = 3 \<and> attempt_throws envs 2)"
      using lt thr Returned by (auto simp: eq after_attempt_def)
    then show ?thesis by (rule exI)
  next
    case Blocked
    have eq: "login_loop envs a w = (Blocked, after_attempt a li w)"
      using lt l Blocked by (intro login_loop_blocked) simp_all
    have "0 < Suc 0 \<and> a + Suc 0 \<le> 3
     \<and> trace (snd (login_loop envs a w)) = trace w @ attempt_events a (Suc 0)
     \<and> (\<forall>i. Suc i < Suc 0 \<longrightarrow> attempt_throws envs (a + i))
     \<and> (a + Suc 0 < 3 \<longrightarrow> \<not> attempt_throws envs (a + Suc 0 - 1))
     \<and> (fst (login_loop envs a w) = Returned False \<longleftrightarrow> a + Suc 0 = 3 \<and> attempt_throws envs 2)"
      using lt thr Blocked by (auto simp: eq after_attempt_def)
    then show ?thesis by (rule exI)
  next
    case (Threw e)
    let ?w1 = "before_retry (a + 1) [Delay 10000 15000, Relaunch] (after_attempt a li w)"
    have eq: "login_loop envs a w = login_loop envs (a + 1) ?w1"
      using lt l Threw by (intro login_loop_threw) simp_all
    have ta: "attempt_throws envs a" using thr Threw by simp
    show ?thesis
    proof (cases "a + 1 < 3")
      case False
      then have a2: "a = 2" using lt by simp
      have last: "login_loop envs (a + 1) ?w1 = (Returned False, ?w1)"
        using False by (intro login_loop_done)
      have both: "login_loop envs a w = (Returned False, ?w1)"
        by (rule trans [OF eq last])
      have tr2: "trace (snd (login_loop envs a w)) = trace w @ [LoginAttempt a]"
        using False by (simp add: both before_retry_def after_attempt_def)
      have res2: "fst (login_loop envs a w) = Returned False"
        by (simp add: both)
      have "0 < Suc 0 \<and> a + Suc 0 \<le> 3
       \<and> trace (snd (login_loop envs a w)) = trace w @ attempt_events a (Suc 0)
       \<and> (\<forall>i. Suc i < Suc 0 \<longrightarrow> attempt_throws envs (a + i))
       \<and> (a + Suc 0 < 3 \<longrightarrow> \<not> attempt_throws envs (a + Suc 0 - 1))
       \<and> (fst (login_loop envs a w) = Returned False \<longleftrightarrow> a + Suc 0 = 3 \<and> attempt_throws envs 2)"
        using ta a2 tr2 res2 by simp
      then show ?thesis by (rule exI)
    next
      case True
      from "1.IH"(2) [OF lt l [symmetric] Threw True]
      obtain m where m: "0 < m" "a + 1 + m \<le> 3"
        and tr: "trace (snd (login_loop envs (a + 1) ?w1)) = trace ?w1 @ attempt_events (a + 1) m"
        and before: "\<forall>i. Suc i < m \<longrightarrow> attempt_throws envs (a + 1 + i)"
        and early: "a + 1 + m < 3 \<longrightarrow> \<not> attempt_throws envs (a + 1 + m - 1)"
        and res: "fst (login_loop envs (a + 1) ?w1) = Returned False
                    \<longleftrightarrow> a + 1 + m = 3 \<and> attempt_throws envs 2"
        by blast
      have c1: "0 < Suc m \<and> a + Suc m \<le> 3" using m by simp
      have c2: "trace (snd (login_loop envs a w)) = trace w @ attempt_events a (Suc m)"
        using tr True m by (simp add: eq before_retry_def after_attempt_def)
      have c3: "\<forall>i. Suc i < Suc m \<longrightarrow> attempt_throws envs (a + i)"
      proof (intro allI impI)
        fix i assume i: "Suc i < Suc m"
        show "attempt_throws envs (a + i)"
        proof (cases i)
          case 0
          then show ?thesis using ta by simp
        next
          case (Suc j)
          with i before have "attempt_throws envs (a + 1 + j)" by simp
          with Suc show ?thesis by simp
        qed
      qed
      have c4: "a + Suc m < 3 \<longrightarrow> \<not> attempt_throws envs (a + Suc m - 1)"
        using early m by simp
      have c5: "fst (login_loop envs a w) = Returned False \<longleftrightarrow> a + Suc m = 3 \<and> attempt_throws envs 2"
        using res by (simp add: eq)
      from c1 c2 c3 c4 c5 show ?thesis by blast
    qed
  qed
qed











text \<open>
  Claim C6, as the code has it. A call of \<open>ensureLoggedIn\<close> probes the page and then
  makes \<open>m\<close> login attempts, at most three, and at least one when the page is ready
  and no session is verified. Between two attempts stand a delay drawn from the range of
  10 to 15 seconds, the same for every retry, and the relaunch of the browser, and no
  other event. Every attempt before the last threw; a throwing attempt is followed by
  another while attempts remain, whatever the error; the attempts stop before the third
  only when one did not throw. The call never throws; when the page is ready and no
  session is verified it returns \<open>false\<close> exactly when the third attempt threw; and
  \<open>true\<close> is returned only with \<open>isLoggedIn\<close> set.
\<close>

theorem login_retry_cap:
  assumes run: "ensureLoggedIn ae w = (r, w')"
  shows "\<exists>m\<le>3. trace w' = trace w @ PageReadyProbe # attempt_events 0 m
       \<and> (session_unverified ae w \<longrightarrow> 0 < m)
       \<and> (\<forall>i. Suc i < m \<longrightarrow> attempt_throws (login_envs ae) i)
       \<and> (\<forall>i. i < m \<and> i < 2 \<and> attempt_throws (login_envs ae) i \<longrightarrow> Suc i < m)
       \<and> (0 < m \<and> m < 3 \<longrightarrow> \<not> attempt_throws (login_envs ae) (m - 1))
       \<and> (session_unverified ae w \<longrightarrow>
            (r = Returned False \<longleftrightarrow> m = 3 \<and> attempt_throws (login_envs ae) 2))
       \<and> (\<forall>e. r \<noteq> Threw e)
       \<and> (r = Returned True \<longrightarrow> isLoggedIn w')"
proof (cases "session_unverified ae w")
  case False
  then have "r = Returned False \<and> w' = w\<lparr>trace := trace w @ [PageReadyProbe]\<rparr>
      \<or> r = Returned True \<and> isLoggedIn w \<and> w' = w\<lparr>trace := trace w @ [PageReadyProbe]\<rparr>"
    using run by (auto simp: ensureLoggedIn_def session_unverified_def Let_def split: if_splits)
  then have "trace w' = trace w @ PageReadyProbe # attempt_events 0 0
       \<and> (\<forall>e. r \<noteq> Threw e) \<and> (r = Returned True \<longrightarrow> isLoggedIn w')"
    by auto
  with False show ?thesis by (intro exI [of _ 0]) simp
next
  case True
  let ?w1 = "w\<lparr>trace := trace w @ [PageReadyProbe]\<rparr>"
  have eq: "login_loop (login_envs ae) 0 ?w1 = (r, w')"
    using run True by (auto simp: ensureLoggedIn_def session_unverified_def Let_def split: if_splits)
  from login_loop_attempts [of 0 "login_envs ae" ?w1]
  obtain m where m: "0 < m" "m \<le> 3"
    and tr: "trace w' = trace w @ PageReadyProbe # attempt_events 0 m"
    and before: "\<forall>i. Suc i < m \<longrightarrow> attempt_throws (login_envs ae) i"
    and early: "m < 3 \<longrightarrow> \<not> attempt_throws (login_envs ae) (m - 1)"
    and res: "r = Returned False \<longleftrightarrow> m = 3 \<and> attempt_throws (login_envs ae) 2"
    by (auto simp: eq)
  have again: "\<forall>i. i < m \<and> i < 2 \<and> attempt_throws (login_envs ae) i \<longrightarrow> Suc i < m"
  proof (intro allI impI)
    fix i assume i: "i < m \<and> i < 2 \<and> attempt_throws (login_envs ae) i"
    show "Suc i < m"
    proof (rule ccontr)
      assume "\<not> Suc i < m"
      with i have "m = Suc i" by simp
      with i early show False by simp
    qed
  qed
  from login_loop_result [of "login_envs ae" 0 ?w1]
  have never: "\<forall>e. r \<noteq> Threw e" and logged: "r = Returned True \<longrightarrow> isLoggedIn w'"
    by (auto simp: eq)
  from m tr before again early res never logged show ?thesis by blast
qed

theorem login_retry_cap_witness:
  "session_unverified captcha_session fresh_world
   \<and> fst (ensureLoggedIn captcha_session fresh_world) = Returned False
   \<and> trace (snd (ensureLoggedIn captcha_session fresh_world))
       = [PageReadyProbe, LoginAttempt 0, Delay 10000 15000, Relaunch,
          LoginAttempt 1, Delay 10000 15000, Relaunch, LoginAttempt 2]"
proof -
  have l: "login captcha_login li = (Threw CaptchaInHeadlessMode, li)" for li
    by (simp add: login_def captcha_login_def quiet_login_def handleLoginChallenges_def
        handleCaptcha_def challenge_step_def interactive_def numeral_3_eq_3)
  have unv: "session_unverified captcha_session fresh_world"
    by (simp add: session_unverified_def captcha_session_def fresh_world_def)
  have thr: "attempt_throws (login_envs captcha_session) a" for a
    by (simp add: attempt_throws_def captcha_session_def l)
  have tr: "trace fresh_world = []"
    by (simp add: fresh_world_def)
  have events: "attempt_events 0 3 = [LoginAttempt 0, Delay 10000 15000, Relaunch,
             LoginAttempt 1, Delay 10000 15000, Relaunch, LoginAttempt 2]"
    by (simp add: numeral_3_eq_3)
  from login_retry_cap [OF surjective_pairing, of captcha_session fresh_world]
  obtain m where m: "m \<le> 3"
    and t: "trace (snd (ensureLoggedIn captcha_session fresh_world))
              = trace fresh_world @ PageReadyProbe # attempt_events 0 m"
    and pos: "session_unverified captcha_session fresh_world \<longrightarrow> 0 < m"
    and early: "0 < m \<and> m < 3 \<longrightarrow> \<not> attempt_throws (login_envs captcha_session) (m - 1)"
    and res: "session_unverified captcha_session fresh_world \<longrightarrow>
         (fst (ensureLoggedIn captcha_session fresh_world) = Returned False
            \<longleftrightarrow> m = 3 \<and> attempt_throws (login_envs captcha_session) 2)"
    by blast
  from pos unv early thr m have m3: "m = 3" by (cases "m < 3") auto
  from res unv m3 thr have r: "fst (ensureLoggedIn captcha_session fresh_world) = Returned False"
    by blast
  from t have "trace (snd (ensureLoggedIn captcha_session fresh_world))
       = [PageReadyProbe, LoginAttempt 0, Delay 10000 15000, Relaunch,
          LoginAttempt 1, Delay 10000 15000, Relaunch, LoginAttempt 2]"
    by (simp only: m3 events tr append_Nil)
  with unv r show ?thesis by blast
qed

text \<open>
  Claim C6 as stated fails: in headless mode with a CAPTCHA on every login page, the
  challenge error of the first attempt is followed by two more attempts, and the two
  delays are drawn from the same range.
\<close>

theorem challenge_is_retried:
  "fst (login (login_envs captcha_session 0) False) = Threw CaptchaInHeadlessMode
   \<and> CaptchaInHeadlessMode \<in> challenge_errors
   \<and> filter is_login_attempt (trace (snd (ensureLoggedIn captcha_session fresh_world)))
       = [LoginAttempt 0, LoginAttempt 1, LoginAttempt 2]
   \<and> filter is_delay (trace (snd (ensureLoggedIn captcha_session fresh_world)))
       = [Delay 10000 15000, Delay 10000 15000]"
proof -
  have l: "login captcha_login li = (Threw CaptchaInHeadlessMode, li)" for li
    by (simp add: login_def captcha_login_def quiet_login_def handleLoginChallenges_def
        handleCaptcha_def challenge_step_def interactive_def numeral_3_eq_3)
  have run: "ensureLoggedIn captcha_session fresh_world
     = (Returned False,
        fresh_world\<lparr>trace := [PageReadyProbe, LoginAttempt 0, Delay 10000 15000, Relaunch,
           LoginAttempt 1, Delay 10000 15000, Relaunch, LoginAttempt 2]\<rparr>)"
    by (simp add: ensureLoggedIn_def captcha_session_def fresh_world_def Let_def
        login_loop.simps l after_attempt_def before_retry_def)
  have first: "fst (login (login_envs captcha_session 0) False) = Threw CaptchaInHeadlessMode"
    by (simp add: captcha_session_def l)
  show ?thesis
    by (simp add: run first challenge_errors_def)
qed

subsection \<open>Job discovery\<close>


lemma scrapeJobListings_not_a_page:
  "scrapeJobListings (case m of None \<Rightarrow> Undefined | Some n \<Rightarrow> Number n) None = Threw PageIsNotAPage"
  by (simp add: scrapeJobListings_def split: option.splits)

text \<open>No run of \<open>scrapeJobs\<close> returns a list of jobs: it throws, or it stays blocked.\<close>

lemma scrapeJobs_never_returns: "fst (scrapeJobs js env customFilters w) \<noteq> Returned scrapedJobs"
  by (simp add: scrapeJobs_def scrape_failed_def scrapeJobListings_not_a_page Let_def
      split: outcome.splits)

lemma two_cards_batch0:
  "run_batch 50 (two_cards_page n) start_state
     = \<lparr>b_jobs = [sample_job ''201'' 70, sample_job ''202'' 55],
        b_processedJobIds = [''202'', ''201''], b_new = 2\<rparr>"
  by (simp add: run_batch_def two_cards_page_def start_state_def process_cards.simps
      sample_job_def)

lemma two_cards_batch_again:
  "run_batch 50 (two_cards_page n)
     \<lparr>passes = p, found = [sample_job ''201'' 70, sample_job ''202'' 55],
      processedJobIds = [''202'', ''201''], consecutiveNoNewJobs = c\<rparr>
     = \<lparr>b_jobs = [sample_job ''201'' 70, sample_job ''202'' 55],
        b_processedJobIds = [''202'', ''201''], b_new = 0\<rparr>"
  by (simp add: run_batch_def two_cards_page_def process_cards.simps sample_job_def)

lemma two_cards_loop:
  "scrape_loop two_cards_page 50 start_state
     = Returned \<lparr>passes = 4, found = [sample_job ''201'' 70, sample_job ''202'' 55],
         processedJobIds = [''202'', ''201''], consecutiveNoNewJobs = 3\<rparr>"
proof -
  have cards: "cards (two_cards_page n) \<noteq> []" "\<not> page_error (two_cards_page n)"
    "next_button (two_cards_page n) = NoNextButton" for n
    by (simp_all add: two_cards_page_def)
  show ?thesis
    apply (subst scrape_loop.simps)
    apply (simp add: cards two_cards_batch0 after_batch_def)
    apply (simp add: start_state_def)
    apply (subst scrape_loop.simps)
    apply (simp add: cards two_cards_batch_again after_batch_def)
    apply (subst scrape_loop.simps)
    apply (simp add: cards two_cards_batch_again after_batch_def)
    apply (subst scrape_loop.simps)
    apply (simp add: cards two_cards_batch_again after_batch_def)
    done
qed

text \<open>A disabled next button ends the loop after the first batch, below the target.\<close>

lemma last_page_ends_loop:
  "scrape_loop last_page 50 start_state
     = Returned \<lparr>passes = 1, found = [sample_job ''201'' 70], processedJobIds = [''201''],
         consecutiveNoNewJobs = 0\<rparr>"
proof -
  have batch: "run_batch 50 (last_page n) start_state
     = \<lparr>b_jobs = [sample_job ''201'' 70], b_processedJobIds = [''201''], b_new = 1\<rparr>" for n
    by (simp add: run_batch_def last_page_def start_state_def process_cards.simps sample_job_def)
  have page: "cards (last_page n) \<noteq> []" "\<not> page_error (last_page n)"
    "next_button (last_page n) = NextDisabled" for n
    by (simp_all add: last_page_def)
  show ?thesis
    by (subst scrape_loop.simps) (simp add: page batch after_batch_def, simp add: start_state_def)
qed

text \<open>
  Claim C7 at a failing input. The result page shows the same two cards on every pass.
  Handed to \<open>scrapeJobListings\<close> as its page with the target 50, the loop stops after
  three passes without a new job and returns the two jobs. \<open>scrapeJobs\<close> with
  \<open>maxJobs = 50\<close> on a live session hands the number 50 to the parameter \<open>page\<close>
  instead: the run throws the \<open>TypeError\<close> of the first page operation and is logged
  with the status \<open>error\<close>.
\<close>

theorem scrape_jobs_target_passed_as_page:
  "scrapeJobListings (Page two_cards_page) (Some 50)
     = Returned [sample_job ''201'' 70, sample_job ''202'' 55]
   \<and> fst (scrapeJobs (new_JobScraper (Some 50)) discovery_env None logged_in_world)
       = Threw PageIsNotAPage
   \<and> scraping_logs (db (snd (scrapeJobs (new_JobScraper (Some 50)) discovery_env None logged_in_world)))
       = [\<lparr>log_type = ''job_scrape'', log_status = ''error'', items_processed = 0,
           errors_count = 0, error_message = Some ''page.waitForSelector is not a function''\<rparr>]"
proof -
  have lw: "ensureLoggedIn live_session logged_in_world
      = (Returned True, logged_in_world\<lparr>trace := [PageReadyProbe]\<rparr>)"
    by (simp add: ensureLoggedIn_def live_session_def logged_in_world_def Let_def)
  have env: "s_session discovery_env = live_session" "navigate_ok discovery_env"
    "filters_ok discovery_env" "isLoggedIn logged_in_world"
    by (simp_all add: discovery_env_def logged_in_world_def)
  have run: "scrapeJobs (new_JobScraper (Some 50)) discovery_env None logged_in_world
      = scrape_failed discovery_env PageIsNotAPage
          (logged_in_world\<lparr>trace := [PageReadyProbe, Navigate ''https://www.linkedin.com/jobs/'']\<rparr>)"
    by (simp add: scrapeJobs_def Let_def env lw new_JobScraper_def or_default_def
        scrapeJobListings_def)
  have w: "db logged_in_world = acme_store" "\<not> s_log_fault discovery_env"
    by (simp_all add: logged_in_world_def discovery_env_def)
  show ?thesis
    by (simp add: run scrape_failed_def logScrapingSession_def insertLog_def
        w acme_store_def scrapeJobListings_def two_cards_loop)
qed

lemma scrape_card_bound:
  "int (length (b_jobs b)) < target \<Longrightarrow> int (length (b_jobs (scrape_card c b))) \<le> target"
  by (cases c) (auto split: option.splits)

lemma process_cards_bound:
  "int (length (b_jobs (process_cards target cs i b))) \<le> max target (int (length (b_jobs b)))"
proof (induction target cs i b rule: process_cards.induct)
  case (1 target cs i b)
  show ?case
  proof (cases "int i < min (int (length cs)) (target - int (length (b_jobs b)))")
    case False
    show ?thesis by (simp add: process_cards_stop [OF False])
  next
    case True
    then have "int (length (b_jobs b)) < target" by simp
    then have "int (length (b_jobs (scrape_card (cs ! i) b))) \<le> target"
      by (rule scrape_card_bound)
    then show ?thesis
      using "1.IH" [OF True] by (simp add: process_cards_step [OF True])
  qed
qed

text \<open>
  Called with a page, the loop always ends (the function is total). When it returns, it
  holds at most \<open>maxJobs\<close> jobs (if it started below the target) and one of its exits was
  taken: the target is reached, three passes in a row added nothing, or the next button
  of the last pass was disabled. It throws only when a page operation throws.
\<close>

lemma scrape_loop_stops:
  "(case scrape_loop pg target s of
      Returned s' \<Rightarrow>
        int (length (found s')) \<le> max target (int (length (found s)))
        \<and> (target \<le> int (length (found s')) \<or> 3 \<le> consecutiveNoNewJobs s'
            \<or> (0 < passes s' \<and> next_button (pg (passes s' - 1)) = NextDisabled))
    | Threw e \<Rightarrow> e = BrowserFailure \<and> (\<exists>n. page_error (pg n))
    | Blocked \<Rightarrow> False)"
proof (induction pg target s rule: scrape_loop.induct)
  case (1 pg target s)
  let ?v = "pg (passes s)"
  let ?s1 = "s\<lparr>passes := passes s + 1, consecutiveNoNewJobs := consecutiveNoNewJobs s + 1\<rparr>"
  let ?s2 = "after_batch s (run_batch target ?v s)"
  have bound2: "int (length (found ?s2)) \<le> max target (int (length (found s)))"
    using process_cards_bound [of target "cards ?v" 0
        "\<lparr>b_jobs = found s, b_processedJobIds = processedJobIds s, b_new = 0\<rparr>"]
    by (simp add: after_batch_def run_batch_def)
  have passes2: "passes ?s2 = passes s + 1" by (simp add: after_batch_def)
  consider (stop) "\<not> (int (length (found s)) < target \<and> consecutiveNoNewJobs s < 3)"
    | (err) "int (length (found s)) < target \<and> consecutiveNoNewJobs s < 3" "page_error ?v"
    | (empty) "int (length (found s)) < target \<and> consecutiveNoNewJobs s < 3" "\<not> page_error ?v"
        "cards ?v = []"
    | (last) "int (length (found s)) < target \<and> consecutiveNoNewJobs s < 3" "\<not> page_error ?v"
        "cards ?v \<noteq> []" "int (length (found ?s2)) < target \<and> next_button ?v = NextDisabled"
    | (three) "int (length (found s)) < target \<and> consecutiveNoNewJobs s < 3" "\<not> page_error ?v"
        "cards ?v \<noteq> []" "\<not> (int (length (found ?s2)) < target \<and> next_button ?v = NextDisabled)"
        "3 \<le> consecutiveNoNewJobs ?s2"
    | (more) "int (length (found s)) < target \<and> consecutiveNoNewJobs s < 3" "\<not> page_error ?v"
        "cards ?v \<noteq> []" "\<not> (int (length (found ?s2)) < target \<and> next_button ?v = NextDisabled)"
        "\<not> 3 \<le> consecutiveNoNewJobs ?s2"
    by blast
  then show ?case
  proof cases
    case stop
    then have "scrape_loop pg target s = Returned s"
      by (subst scrape_loop.simps) (simp only: if_True if_False simp_thms)
    then show ?thesis using stop by auto
  next
    case err
    then have "scrape_loop pg target s = Threw BrowserFailure"
      by (subst scrape_loop.simps) (simp only: if_True if_False simp_thms)
    then show ?thesis using err by auto
  next
    case empty
    then have eq: "scrape_loop pg target s = scrape_loop pg target ?s1"
      by (subst scrape_loop.simps) (simp only: if_True if_False simp_thms)
    show ?thesis
      using "1.IH"(1) [OF empty] unfolding eq
      by (auto split: outcome.splits)
  next
    case last
    then have "scrape_loop pg target s = Returned ?s2"
      by (subst scrape_loop.simps) (simp only: if_True if_False simp_thms)
    then show ?thesis using last bound2 passes2 by simp
  next
    case three
    then have "scrape_loop pg target s = Returned ?s2"
      by (subst scrape_loop.simps) (simp only: if_True if_False simp_thms)
    then show ?thesis using three bound2 by simp
  next
    case more
    then have eq: "scrape_loop pg target s = scrape_loop pg target ?s2"
      by (subst scrape_loop.simps) (simp only: if_True if_False simp_thms)
    show ?thesis
      using "1.IH"(2) [OF more] bound2 unfolding eq
      by (auto split: outcome.splits)
  qed
qed

subsection \<open>Run outcomes\<close>


lemma logs_insertJob [simp]: "scraping_logs (insertJob d now j) = scraping_logs d"
  by (simp add: insertJob_def)

lemma logs_processAndSaveJob [simp]: "scraping_logs (processAndSaveJob d now j) = scraping_logs d"
  by (simp add: processAndSaveJob_def)

lemma logs_insertApplication [simp]: "scraping_logs (insertApplication d now a) = scraping_logs d"
  by (simp add: insertApplication_def)

lemma logs_markJobApplied [simp]: "scraping_logs (markJobApplied d jid) = scraping_logs d"
  by (simp add: markJobApplied_def)

lemma logs_insertCompany [simp]: "scraping_logs (insertCompany d now c) = scraping_logs d"
  by (simp add: insertCompany_def)

lemma logs_updateApplicationStatus [simp]:
  "scraping_logs (updateApplicationStatus d a upd) = scraping_logs d"
  by (simp add: updateApplicationStatus_def Let_def)

lemma logs_touchLastChecked [simp]: "scraping_logs (touchLastChecked d now aid) = scraping_logs d"
  by (simp add: touchLastChecked_def)

lemma logs_save_jobs [simp]: "scraping_logs (fst (save_jobs env js de)) = scraping_logs (fst de)"
  by (induction js arbitrary: de) simp_all

lemma logs_checkApplicationStatus [simp]:
  "scraping_logs (snd (checkApplicationStatus env a d)) = scraping_logs d"
  by (simp add: checkApplicationStatus_def split: observation.splits)

lemma logs_track_one [simp]:
  "scraping_logs (db (snd (track_one env a cw))) = scraping_logs (db (snd cw))"
  by (simp add: track_one_def Let_def split: outcome.splits option.splits)

lemma logs_track_all [simp]:
  "scraping_logs (db (snd (foldl (\<lambda>cw a. track_one env a cw) cw rows))) = scraping_logs (db (snd cw))"
  by (induction rows arbitrary: cw) simp_all

lemma logs_company_one [simp]:
  "scraping_logs (db (snd (company_one env n cw))) = scraping_logs (db (snd cw))"
  by (simp add: company_one_def Let_def split: option.splits)

lemma logs_company_all [simp]:
  "scraping_logs (db (snd (foldl (\<lambda>cw n. company_one env n cw) cw ns))) = scraping_logs (db (snd cw))"
  by (induction ns arbitrary: cw) simp_all

lemma logs_recordApplication:
  "recordApplication env job appId method d = Inl x \<Longrightarrow> scraping_logs x = scraping_logs d"
  "recordApplication env job appId method d = Inr x \<Longrightarrow> scraping_logs x = scraping_logs d"
  by (auto simp: recordApplication_def split: store_fault.splits)

lemma logs_apply_one [simp]:
  "scraping_logs (db (snd (apply_one app env job cw))) = scraping_logs (db (snd cw))"
  by (auto simp: apply_one_def Let_def split: apply_result.splits sum.splits
      dest: logs_recordApplication)

lemma logs_apply_loop [simp]:
  "scraping_logs (db (snd (apply_loop app env remaining js cw))) = scraping_logs (db (snd cw))"
  by (induction js arbitrary: cw) (simp_all add: Let_def)

lemma run_logged_insert:
  "scraping_logs d1 = scraping_logs d \<Longrightarrow>
   run_logged fault \<lparr>log_type = ty, log_status = st, items_processed = items,
       errors_count = errs, error_message = msg\<rparr> d
     (if fault then d1
      else insertLog d1 \<lparr>log_type = ty, log_status = st, items_processed = items,
                         errors_count = errs, error_message = msg\<rparr>)"
  by (simp add: run_logged_def insertLog_def)

lemma run_logged_scraping:
  "scraping_logs d1 = scraping_logs d \<Longrightarrow>
   run_logged fault \<lparr>log_type = ty, log_status = st, items_processed = items,
       errors_count = errs, error_message = msg\<rparr> d
     (logScrapingSession fault ty st items errs msg d1)"
  unfolding logScrapingSession_def by (rule run_logged_insert)

lemma run_logged_application:
  "scraping_logs d1 = scraping_logs d \<Longrightarrow>
   run_logged fault \<lparr>log_type = ty, log_status = st, items_processed = items,
       errors_count = errs, error_message = msg\<rparr> d
     (logApplicationSession fault ty st items errs msg d1)"
  unfolding logApplicationSession_def by (rule run_logged_insert)

lemma run_logged_tracking:
  "scraping_logs d1 = scraping_logs d \<Longrightarrow>
   run_logged fault \<lparr>log_type = ty, log_status = st, items_processed = items,
       errors_count = errs, error_message = msg\<rparr> d
     (logTrackingSession fault ty st items errs updated msg d1)"
  unfolding logTrackingSession_def by (rule run_logged_insert)

lemma save_jobs_errors:
  "snd (save_jobs env js de) = snd de + length (filter (save_rejected env) js)"
  by (induction js arbitrary: de) simp_all

lemma scrapeJobs_logged:
  "outcome_logged (s_log_fault env) ''job_scrape'' length
     (\<lambda>scrapedJobs. length (filter (save_rejected env) scrapedJobs))
     (fst (scrapeJobs js env cf w)) (db w) (db (snd (scrapeJobs js env cf w)))"
  by (simp add: scrapeJobs_def scrape_failed_def Let_def run_logged_scraping save_jobs_errors
      split: outcome.splits)

lemma trackApplications_logged:
  "outcome_logged (t_log_fault env) ''application_check'' checkedCount t_errorsCount
     (fst (trackApplications env w)) (db w) (db (snd (trackApplications env w)))"
  by (simp add: trackApplications_def Let_def run_logged_tracking split: outcome.splits)

lemma scrapeCompanies_logged:
  "outcome_logged (c_log_fault env) ''company_scrape'' scrapedCount c_errorsCount
     (fst (scrapeCompanies env ns w)) (db w) (db (snd (scrapeCompanies env ns w)))"
  by (simp add: scrapeCompanies_def Let_def run_logged_scraping split: outcome.splits)

lemma autoApplyToJobs_logged:
  "passes_gates app env w \<Longrightarrow>
   outcome_logged (log_fault env) ''auto_apply'' appliedCount errorsCount
     (fst (autoApplyToJobs app env f w)) (db w) (db (snd (autoApplyToJobs app env f w)))"
  by (simp add: passes_gates_def autoApplyToJobs_def Let_def run_logged_application
      split: outcome.splits)

lemma autoApplyToJobs_gated:
  "\<not> passes_gates app env w \<Longrightarrow> autoApplyToJobs app env f w = (Returned no_counts, w)"
  by (auto simp: passes_gates_def autoApplyToJobs_def Let_def)

text \<open>
  Claim C8, as the code has it. Every run of \<open>scrapeJobs\<close>, \<open>trackApplications\<close> and
  \<open>scrapeCompanies\<close> that returns or throws, and every run of \<open>autoApplyToJobs\<close> that
  gets past the toggle and the daily cap, writes exactly one row to \<open>scraping_logs\<close>
  before it returns or rethrows, unless the insert itself is rejected; older rows are
  untouched. The row of a run that returned holds the type of the task, the status
  \<open>success\<close>, the number of items and the number of errors of the run (the jobs found
  and the rejected saves; the applications checked, the companies scraped and the
  applications made, each with the errors counted) and no message; the row of a run that
  threw holds the status \<open>error\<close>, the counts 0 and 0 and the message of the error. An
  auto-apply run stopped by the toggle or by the cap returns the zero counts and writes
  nothing.
\<close>

theorem run_outcome_logged_once:
  "outcome_logged (s_log_fault se) ''job_scrape'' length
     (\<lambda>scrapedJobs. length (filter (save_rejected se) scrapedJobs))
     (fst (scrapeJobs js se cf w)) (db w) (db (snd (scrapeJobs js se cf w)))
   \<and> outcome_logged (t_log_fault te) ''application_check'' checkedCount t_errorsCount
     (fst (trackApplications te w)) (db w) (db (snd (trackApplications te w)))
   \<and> outcome_logged (c_log_fault ce) ''company_scrape'' scrapedCount c_errorsCount
     (fst (scrapeCompanies ce ns w)) (db w) (db (snd (scrapeCompanies ce ns w)))
   \<and> (passes_gates app ae w \<longrightarrow>
        outcome_logged (log_fault ae) ''auto_apply'' appliedCount errorsCount
          (fst (autoApplyToJobs app ae f w)) (db w) (db (snd (autoApplyToJobs app ae f w))))
   \<and> (\<not> passes_gates app ae w \<longrightarrow> autoApplyToJobs app ae f w = (Returned no_counts, w))"
  using scrapeJobs_logged trackApplications_logged scrapeCompanies_logged
    autoApplyToJobs_logged autoApplyToJobs_gated
  by blast

theorem run_outcome_logged_once_witness:
  "passes_gates cap_app cap_env cap_world
   \<and> scraping_logs (db (snd (autoApplyToJobs cap_app cap_env None cap_world)))
       = scraping_logs (db cap_world)
         @ [\<lparr>log_type = ''auto_apply'', log_status = ''success'', items_processed = 1,
             errors_count = 0, error_message = None\<rparr>]
   \<and> \<not> passes_gates (cap_app\<lparr>maxApplicationsPerDay := 1\<rparr>) cap_env cap_world
   \<and> autoApplyToJobs (cap_app\<lparr>maxApplicationsPerDay := 1\<rparr>) cap_env None cap_world
       = (Returned no_counts, cap_world)"
proof -
  have k: "getTodayApplicationsCount (count_query_rejected cap_env) (db cap_world) (clock cap_env) = 1"
    by (simp add: getTodayApplicationsCount_def today_count_def cap_world_def cap_env_def date_of_def)
  have open_gate: "passes_gates cap_app cap_env cap_world"
    using k by (simp add: passes_gates_def cap_app_def)
  have closed_gate: "\<not> passes_gates (cap_app\<lparr>maxApplicationsPerDay := 1\<rparr>) cap_env cap_world"
    using k by (simp add: passes_gates_def)
  have fault: "\<not> log_fault cap_env" by (simp add: cap_env_def)
  note all = run_outcome_logged_once [where app = cap_app and ae = cap_env and w = cap_world
      and f = None]
  note gated = run_outcome_logged_once [where app = "cap_app\<lparr>maxApplicationsPerDay := 1\<rparr>"
      and ae = cap_env and w = cap_world and f = None]
  from all open_gate have "outcome_logged (log_fault cap_env) ''auto_apply'' appliedCount errorsCount
      (fst (autoApplyToJobs cap_app cap_env None cap_world)) (db cap_world)
      (db (snd (autoApplyToJobs cap_app cap_env None cap_world)))"
    by blast
  then have logged: "scraping_logs (db (snd (autoApplyToJobs cap_app cap_env None cap_world)))
       = scraping_logs (db cap_world)
         @ [\<lparr>log_type = ''auto_apply'', log_status = ''success'', items_processed = 1,
             errors_count = 0, error_message = None\<rparr>]"
    using fault by (simp add: cap_run_result run_logged_def)
  from gated closed_gate have "autoApplyToJobs (cap_app\<lparr>maxApplicationsPerDay := 1\<rparr>) cap_env None cap_world
       = (Returned no_counts, cap_world)"
    by blast
  with open_gate closed_gate logged show ?thesis by blast
qed

text \<open>
  Claim C8 as stated fails: with the cap at 1 and one application dated today, the
  auto-apply run completes, and the log is as empty as before.
\<close>

theorem capped_run_writes_no_log:
  "autoApplyToJobs (cap_app\<lparr>maxApplicationsPerDay := 1\<rparr>) cap_env None cap_world
     = (Returned \<lparr>appliedCount = 0, skippedCount = 0, errorsCount = 0\<rparr>, cap_world)
   \<and> \<not> count_query_rejected cap_env
   \<and> today_count (db cap_world) (clock cap_env) = 1
   \<and> scraping_logs (db cap_world) = []"
proof -
  have k: "today_count (db cap_world) (clock cap_env) = 1"
    by (simp add: today_count_def cap_world_def cap_env_def date_of_def)
  have nr: "\<not> count_query_rejected cap_env"
    by (simp add: cap_env_def)
  have "autoApplyToJobs (cap_app\<lparr>maxApplicationsPerDay := 1\<rparr>) cap_env None cap_world
     = (Returned \<lparr>appliedCount = 0, skippedCount = 0, errorsCount = 0\<rparr>, cap_world)"
    using k nr by (simp add: autoApplyToJobs_def getTodayApplicationsCount_def cap_app_def
        no_counts_def Let_def)
  moreover have "scraping_logs (db cap_world) = []"
    by (simp add: cap_world_def)
  ultimately show ?thesis using k nr by blast
qed

text \<open>
  A tracking run goes on after \<open>ensureLoggedIn\<close> returned \<open>false\<close>: it opens the
  applications page, checks the stored application and logs the run as a success.
\<close>

lemma tracking_proceeds_after_failed_login:
  "fst (ensureLoggedIn captcha_session fresh_world) = Returned False
   \<and> fst (trackApplications captcha_tracking fresh_world)
       = Returned \<lparr>checkedCount = 1, updatedCount = 1, t_errorsCount = 0\<rparr>
   \<and> CheckStatus ''easy_apply_1000'' \<in> set (trace (snd (trackApplications captcha_tracking fresh_world)))"
proof -
  have l: "login captcha_login li = (Threw CaptchaInHeadlessMode, li)" for li
    by (simp add: login_def captcha_login_def quiet_login_def handleLoginChallenges_def
        handleCaptcha_def challenge_step_def interactive_def numeral_3_eq_3)
  have run: "ensureLoggedIn captcha_session fresh_world
     = (Returned False,
        fresh_world\<lparr>trace := [PageReadyProbe, LoginAttempt 0, Delay 10000 15000, Relaunch,
           LoginAttempt 1, Delay 10000 15000, Relaunch, LoginAttempt 2]\<rparr>)"
    by (simp add: ensureLoggedIn_def captcha_session_def fresh_world_def Let_def
        login_loop.simps l after_attempt_def before_retry_def)
  have env: "t_session captcha_tracking = captcha_session" "applications_page_ok captcha_tracking"
    "\<not> rows_query_rejected captcha_tracking"
    by (simp_all add: captcha_tracking_def)
  have "trackApplications captcha_tracking fresh_world
      = (Returned \<lparr>checkedCount = 1, updatedCount = 1, t_errorsCount = 0\<rparr>,
         snd (trackApplications captcha_tracking fresh_world))
    \<and> CheckStatus ''easy_apply_1000'' \<in> set (trace (snd (trackApplications captcha_tracking fresh_world)))"
    apply (simp add: trackApplications_def Let_def env run)
    apply (simp add: fresh_world_def acme_store_def track_one_def checkApplicationStatus_def
        captcha_tracking_def js_or_def Let_def)
    done
  then show ?thesis using run by (metis fst_conv)
qed

subsection \<open>The scheduler\<close>


lemma fires_ignores_in_flight: "fires k (s\<lparr>in_flight := x\<rparr>) ev = fires k s ev"
  by (cases ev) simp_all

lemma running_step_fires: "fires k s ev \<Longrightarrow> running k (step s ev) = running k s + 1"
  by (cases ev) (auto simp: running_def tick_def timer_callback_def trigger_def begin_run_def)

lemma running_step_other:
  "\<not> fires k s ev \<Longrightarrow> ev \<noteq> Settle k \<Longrightarrow> running k (step s ev) = running k s"
proof (cases ev)
  case (Settle n)
  assume "ev \<noteq> Settle k"
  with Settle have "n \<noteq> k" by simp
  then have "count_list (remove1 n xs) k = count_list xs k" for xs
    by (induction xs) auto
  then show ?thesis using Settle by (simp add: running_def settle_def)
qed (auto simp: running_def tick_def timer_callback_def trigger_def begin_run_def
      pauseJob_def resumeJob_def)

lemma running_run_events:
  "Settle k \<notin> set evs \<Longrightarrow> running k (run_events s evs) = running k s + fired k s evs"
proof (induction evs arbitrary: s)
  case Nil
  show ?case by (simp add: run_events_def)
next
  case (Cons ev evs)
  then have rest: "running k (run_events (step s ev) evs) = running k (step s ev) + fired k (step s ev) evs"
    by simp
  have head: "running k (step s ev) = running k s + (if fires k s ev then 1 else 0)"
    using Cons.prems running_step_fires [of k s ev] running_step_other [of k s ev] by auto
  show ?case using rest head by (simp add: run_events_def)
qed

text \<open>
  Claim C2, as amended. The scheduler has no single-flight guard. Whether an event
  starts a call does not depend on the calls in flight; an event that fires (a tick of a
  started timer, within the hours 9 to 17 for auto-apply, or a manual trigger) adds one
  call of its kind to those in flight; and over a run of events in which no call of the
  kind settles, the calls of the kind in flight grow by the number of events that fired.
\<close>

theorem no_single_flight_guard:
  "(\<forall>x. fires k (s\<lparr>in_flight := x\<rparr>) ev = fires k s ev)
   \<and> (fires k s ev \<longrightarrow> running k (step s ev) = running k s + 1)
   \<and> (Settle k \<notin> set evs \<longrightarrow> running k (run_events s evs) = running k s + fired k s evs)"
  using fires_ignores_in_flight running_step_fires running_run_events by blast

theorem no_single_flight_guard_witness:
  "running JobScraping
     (run_events (start None new_Scheduler)
        [Trigger JobScraping, Tick JobScraping 3, Tick AutoApplication 3, Trigger JobScraping]) = 3"
proof -
  let ?s = "start None new_Scheduler"
  let ?evs = "[Trigger JobScraping, Tick JobScraping 3, Tick AutoApplication 3, Trigger JobScraping]"
  have none: "Settle JobScraping \<notin> set ?evs" by simp
  have zero: "running JobScraping ?s = 0"
    by (simp add: running_def start_def new_Scheduler_def)
  have three: "fired JobScraping ?s ?evs = 3"
    by (simp add: start_def new_Scheduler_def trigger_def tick_def timer_callback_def begin_run_def)
  from no_single_flight_guard [of JobScraping ?s _ ?evs] none
  have "running JobScraping (run_events ?s ?evs) = running JobScraping ?s + fired JobScraping ?s ?evs"
    by blast
  then show ?thesis using zero three by simp
qed

text \<open>
  Claim C2 as stated fails: two manual triggers of job scraping before the first call
  settles leave two calls in flight, and so do two ticks of its timer.
\<close>

theorem second_trigger_runs_concurrently:
  "running JobScraping
     (run_events (start None new_Scheduler) [Trigger JobScraping, Trigger JobScraping]) = 2
   \<and> running JobScraping
     (run_events (start None new_Scheduler) [Tick JobScraping 10, Tick JobScraping 10]) = 2"
  by (simp add: run_events_def running_def start_def new_Scheduler_def trigger_def tick_def
      timer_callback_def begin_run_def)

end
